theory Spec2Isabelle
  imports Main "HOL-Library.AList"
begin

section \<open>lutris.util.sql: values, exceptions and observable effects\<close>

text \<open>
  The module is a thin layer over the sqlite3 binding. Values that travel through it
  (bind parameters, cells of result rows, the items of a condition tuple) are Python
  objects of the types sqlite stores; integers are unbounded. REAL and BLOB cells are
  left out, no function of the module looks at them.
\<close>

datatype sql_value = Null | Integer int | Text string

text \<open>
  Exceptions are values. \<open>OperationalError\<close> and \<open>IntegrityError\<close> are the two sqlite3
  classes the module names in an \<open>except\<close> clause; \<open>DatabaseError\<close> stands for every
  other exception of the binding. The remaining constructors are the exceptions the
  module's own Python statements raise.
\<close>

datatype exn =
    OperationalError string
  | IntegrityError string
  | DatabaseError string
  | AssertionError
  | TypeError
  | IndexError
  | KeyError string

fun is_OperationalError :: "exn \<Rightarrow> bool" where
  "is_OperationalError (OperationalError m) = True"
| "is_OperationalError e = False"

fun is_IntegrityError :: "exn \<Rightarrow> bool" where
  "is_IntegrityError (IntegrityError m) = True"
| "is_IntegrityError e = False"

text \<open>
  Everything the module does to the outside is recorded, in order, in a trace:
  the calls on the sqlite3 connection and cursor, the calls on the logger,
  \<open>time.sleep\<close> and \<open>print\<close>.
\<close>

datatype log_arg = LStr string | LInt int

datatype event =
    Connect string
  | Execute string "sql_value list"
  | Commit
  | Close
  | Logger_error string "log_arg list"
  | Logger_error_exn exn
  | Sleep int
  | Print_str string
  | Print_values "sql_value list"

text \<open>
  The sqlite3 binding is not part of the repository, so it is a parameter: an engine
  over a world \<open>'w\<close> (the database file, its locks, the open connection and the
  cursor's pending result set). \<open>sql_execute\<close> is \<open>cursor.execute\<close>: it either raises
  or returns a value of type \<open>'r\<close> (the cursor it was called on), and moves the world
  in both cases. \<open>sql_connect\<close>, \<open>sql_commit\<close> and \<open>sql_close\<close> are
  \<open>sqlite3.connect\<close>, \<open>connection.commit\<close> and \<open>connection.close\<close>: each of them
  either raises (a file that cannot be opened, a database that is locked at the commit)
  or returns, and moves the world. \<open>fetchall\<close>, \<open>description\<close> and \<open>lastrowid\<close> read
  the cursor. \<open>sql_description\<close> keeps item 0 (the column name) of each 7-tuple of
  \<open>cursor.description\<close>, and is \<open>None\<close> when the last statement produced no result
  set.
\<close>

record ('w, 'r) engine =
  sql_connect :: "string \<Rightarrow> 'w \<Rightarrow> (exn + unit) \<times> 'w"
  sql_execute :: "string \<Rightarrow> sql_value list \<Rightarrow> 'w \<Rightarrow> (exn + 'r) \<times> 'w"
  sql_fetchall :: "'w \<Rightarrow> sql_value list list"
  sql_description :: "'w \<Rightarrow> string list option"
  sql_lastrowid :: "'w \<Rightarrow> int option"
  sql_commit :: "'w \<Rightarrow> (exn + unit) \<times> 'w"
  sql_close :: "'w \<Rightarrow> (exn + unit) \<times> 'w"

record 'w state =
  world :: 'w
  trace :: "event list"

definition emit :: "event \<Rightarrow> 'w state \<Rightarrow> 'w state" where
  "emit e s = s\<lparr>trace := trace s @ [e]\<rparr>"

text \<open>\<open>cursor.execute(query, params)\<close>: one attempt, recorded in the trace.\<close>

definition cursor_dot_execute ::
  "('w, 'r) engine \<Rightarrow> string \<Rightarrow> sql_value list \<Rightarrow> 'w state \<Rightarrow> (exn + 'r) \<times> 'w state" where
  "cursor_dot_execute eng query params s =
     (case sql_execute eng query params (world s) of
        (r, w') \<Rightarrow> (r, emit (Execute query params) (s\<lparr>world := w'\<rparr>)))"

section \<open>The retrying executor\<close>

definition DB_RETRIES :: int where
  "DB_RETRIES = 5"

definition retry_message :: string where
  "retry_message = ''SQL query '' @ [CHR 0x27] @ ''%s'' @ [CHR 0x27] @ '' failed. %d retries remaining''"

text \<open>
  The body of \<open>while True\<close> in \<open>cursor_execute\<close>, with the counter \<open>i\<close> as an argument.
  The loop has no bound of its own (started at \<open>i \<ge> 5\<close> on a query that always fails
  it never ends), so it is a partial function: \<open>None\<close> is "does not return".
\<close>

partial_function (option) cursor_execute_loop ::
  "('w, 'r) engine \<Rightarrow> string \<Rightarrow> sql_value list \<Rightarrow> int \<Rightarrow> 'w state
     \<Rightarrow> ((exn + 'r) \<times> 'w state) option" where
  "cursor_execute_loop eng query params i s =
     (case cursor_dot_execute eng query params s of
        (Inr r, s1) \<Rightarrow> Some (Inr r, s1)
      | (Inl ex, s1) \<Rightarrow>
          if is_OperationalError ex then
            (let i' = i + 1 in
             if i' = DB_RETRIES then Some (Inl ex, s1)
             else cursor_execute_loop eng query params i'
                    (emit (Sleep 1)
                      (emit (Logger_error_exn ex)
                        (emit (Logger_error retry_message [LStr query, LInt (DB_RETRIES - i')]) s1))))
          else Some (Inl ex, s1))"

definition cursor_execute ::
  "('w, 'r) engine \<Rightarrow> string \<Rightarrow> sql_value list option \<Rightarrow> 'w state
     \<Rightarrow> ((exn + 'r) \<times> 'w state) option" where
  "cursor_execute eng query params s =
     (let i = 0;
          params = (case params of None \<Rightarrow> [] | Some ps \<Rightarrow> ps)
      in cursor_execute_loop eng query params i s)"

section \<open>String building\<close>

text \<open>\<open>sep.join(xs)\<close>.\<close>

fun join :: "string \<Rightarrow> string list \<Rightarrow> string" where
  "join sep [] = []"
| "join sep [x] = x"
| "join sep (x # y # ys) = x @ sep @ join sep (y # ys)"

text \<open>\<open>str(n)\<close> for an integer, and \<open>str(v)\<close> as \<open>str.format\<close> applies it to a value.\<close>

fun str_nat :: "nat \<Rightarrow> string" where
  "str_nat n =
     (if n < 10 then [''0123456789'' ! n]
      else str_nat (n div 10) @ [''0123456789'' ! (n mod 10)])"

definition str_int :: "int \<Rightarrow> string" where
  "str_int i = (if i < 0 then ''-'' @ str_nat (nat (- i)) else str_nat (nat i))"

fun py_str :: "sql_value \<Rightarrow> string" where
  "py_str Null = ''None''"
| "py_str (Integer i) = str_int i"
| "py_str (Text t) = t"

fun is_Text :: "sql_value \<Rightarrow> bool" where
  "is_Text (Text t) = True"
| "is_Text v = False"

text \<open>
  \<open>_decode_utf8_values\<close>: the \<open>for\<close> loop walks the list by position while it stores
  into the same list; \<open>i\<close> is both the iterator's position and the counter of the
  source. The result is the list as a tuple.
\<close>

function decode_utf8_values_loop :: "nat \<Rightarrow> sql_value list \<Rightarrow> sql_value list" where
  "decode_utf8_values_loop i values_list =
     (if i < length values_list then
        (let v = values_list ! i
         in decode_utf8_values_loop (i + 1)
              (if is_Text v then values_list[i := v] else values_list))
      else values_list)"
  by pat_completeness auto
termination
  by (relation "measure (\<lambda>(i, values_list). length values_list - i)") auto

declare decode_utf8_values_loop.simps [simp del]

definition decode_utf8_values :: "sql_value list \<Rightarrow> sql_value list" where
  "decode_utf8_values values_list = decode_utf8_values_loop 0 values_list"

section \<open>The scoped connection\<close>

text \<open>
  \<open>db_cursor.__enter__\<close> connects and hands out a cursor; when \<open>sqlite3.connect\<close>
  raises, so does \<open>__enter__\<close>. \<open>db_cursor.__exit__\<close> commits and then closes, with
  nothing around the two calls: when \<open>commit\<close> raises, \<open>close\<close> is not reached.
  When it gets that far \<open>__exit__\<close> returns \<open>None\<close>.
\<close>

definition db_cursor_enter ::
  "('w, 'r) engine \<Rightarrow> string \<Rightarrow> 'w state \<Rightarrow> (exn + unit) \<times> 'w state" where
  "db_cursor_enter eng db_path s =
     (case sql_connect eng db_path (world s) of
        (r, w') \<Rightarrow> (r, emit (Connect db_path) (s\<lparr>world := w'\<rparr>)))"

definition db_cursor_exit :: "('w, 'r) engine \<Rightarrow> 'w state \<Rightarrow> (exn + unit) \<times> 'w state" where
  "db_cursor_exit eng s =
     (case sql_commit eng (world s) of
        (Inl ex, w') \<Rightarrow> (Inl ex, emit Commit (s\<lparr>world := w'\<rparr>))
      | (Inr u, w') \<Rightarrow>
          (case sql_close eng w' of
             (r, w'') \<Rightarrow> (r, emit Close (emit Commit (s\<lparr>world := w''\<rparr>)))))"

text \<open>
  The statement \<open>with db_cursor(db_path) as cursor:\<close> around a body. An exception of
  \<open>__enter__\<close> goes to the caller, and neither the body nor \<open>__exit__\<close> runs. After
  the body, whether it returned or raised, \<open>__exit__\<close> runs; an exception of \<open>__exit__\<close>
  goes to the caller in place of the body's outcome, and when \<open>__exit__\<close> returns (its
  \<open>None\<close> swallows nothing) the body's outcome stands.
\<close>

definition with_db_cursor ::
  "('w, 'r) engine \<Rightarrow> string \<Rightarrow> ('w state \<Rightarrow> ((exn + 'a) \<times> 'w state) option) \<Rightarrow> 'w state
     \<Rightarrow> ((exn + 'a) \<times> 'w state) option" where
  "with_db_cursor eng db_path body s =
     (case db_cursor_enter eng db_path s of
        (Inl ex, s1) \<Rightarrow> Some (Inl ex, s1)
      | (Inr u, s1) \<Rightarrow>
          (case body s1 of
             None \<Rightarrow> None
           | Some (r, s2) \<Rightarrow>
               (case db_cursor_exit eng s2 of
                  (Inl ex, s3) \<Rightarrow> Some (Inl ex, s3)
                | (Inr u, s3) \<Rightarrow> Some (r, s3))))"

section \<open>The helpers\<close>

text \<open>
  A Python dict is an association list in insertion order (\<open>keys()\<close> and \<open>values()\<close>
  are its two projections); a store \<open>d[k] = v\<close> is \<open>AList.update k v d\<close>, which keeps
  the position of a key that is already there.
\<close>

definition db_insert ::
  "('w, 'r) engine \<Rightarrow> string \<Rightarrow> string \<Rightarrow> (string \<times> sql_value) list \<Rightarrow> 'w state
     \<Rightarrow> ((exn + int option) \<times> 'w state) option" where
  "db_insert eng db_path table fields' s =
     (let columns = join '', '' (map fst fields');
          placeholders = (let t = concat (replicate (length fields') ''?, '')
                          in take (length t - 2) t);
          field_values = decode_utf8_values (map snd fields')
      in with_db_cursor eng db_path
           (\<lambda>s1. case cursor_execute eng
                        (''insert into '' @ table @ ''('' @ columns @ '') values (''
                           @ placeholders @ '')'')
                        (Some field_values) s1 of
                    None \<Rightarrow> None
                  | Some (Inl ex, s2) \<Rightarrow>
                      if is_IntegrityError ex
                      then Some (Inl ex, emit (Print_values field_values)
                                           (emit (Print_str columns) s2))
                      else Some (Inl ex, s2)
                  | Some (Inr r, s2) \<Rightarrow> Some (Inr (sql_lastrowid eng (world s2)), s2))
           s)"

text \<open>
  \<open>row\<close> is the condition tuple; \<open>row[0]\<close> and \<open>row[1]\<close> are read before the
  connection is opened.
\<close>

definition db_update ::
  "('w, 'r) engine \<Rightarrow> string \<Rightarrow> string \<Rightarrow> (string \<times> sql_value) list \<Rightarrow> sql_value list
     \<Rightarrow> 'w state \<Rightarrow> ((exn + unit) \<times> 'w state) option" where
  "db_update eng db_path table updated_fields row s =
     (let columns = join ''=?, '' (map fst updated_fields) @ ''=?'';
          field_values = decode_utf8_values (map snd updated_fields)
      in if length row < 1 then Some (Inl IndexError, s)
         else
           (let condition_field = py_str (row ! 0) @ ''=?''
            in if length row < 2 then Some (Inl IndexError, s)
               else
                 (let condition_value = [row ! 1]
                  in with_db_cursor eng db_path
                       (\<lambda>s1.
                          (let query = ''UPDATE '' @ table @ '' SET '' @ columns
                                         @ '' WHERE '' @ condition_field
                           in case cursor_execute eng query
                                     (Some (field_values @ condition_value)) s1 of
                                None \<Rightarrow> None
                              | Some (Inl ex, s2) \<Rightarrow> Some (Inl ex, s2)
                              | Some (Inr r, s2) \<Rightarrow> Some (Inr (), s2)))
                       s)))"

definition db_delete ::
  "('w, 'r) engine \<Rightarrow> string \<Rightarrow> string \<Rightarrow> string \<Rightarrow> sql_value \<Rightarrow> 'w state
     \<Rightarrow> ((exn + unit) \<times> 'w state) option" where
  "db_delete eng db_path table field val s =
     with_db_cursor eng db_path
       (\<lambda>s1. case cursor_execute eng
                    (''delete from '' @ table @ '' where '' @ field @ ''=?'')
                    (Some [val]) s1 of
                None \<Rightarrow> None
              | Some (Inl ex, s2) \<Rightarrow> Some (Inl ex, s2)
              | Some (Inr r, s2) \<Rightarrow> Some (Inr (), s2))
       s"

text \<open>
  The two lines after the query in \<open>db_select\<close> and \<open>db_query\<close>:
  \<open>rows = cursor.fetchall()\<close> and the comprehension over \<open>cursor.description\<close>, which
  raises \<open>TypeError\<close> when the description is \<open>None\<close>.
\<close>

definition fetch_rows_and_names ::
  "('w, 'r) engine \<Rightarrow> 'w state \<Rightarrow> ((exn + sql_value list list \<times> string list) \<times> 'w state) option" where
  "fetch_rows_and_names eng s =
     (let rows = sql_fetchall eng (world s)
      in case sql_description eng (world s) of
           None \<Rightarrow> Some (Inl TypeError, s)
         | Some column_names \<Rightarrow> Some (Inr (rows, column_names), s))"

text \<open>
  The loops that turn the rows into dicts, the same in \<open>db_select\<close> and \<open>db_query\<close>.
  \<open>row[index]\<close> raises \<open>IndexError\<close> on a row shorter than the description.
\<close>

fun build_row_data ::
  "(nat \<times> string) list \<Rightarrow> sql_value list \<Rightarrow> (string \<times> sql_value) list
     \<Rightarrow> exn + (string \<times> sql_value) list" where
  "build_row_data [] row row_data = Inr row_data"
| "build_row_data ((index, column) # rest) row row_data =
     (if index < length row
      then build_row_data rest row (AList.update column (row ! index) row_data)
      else Inl IndexError)"

fun build_results ::
  "sql_value list list \<Rightarrow> string list \<Rightarrow> (string \<times> sql_value) list list
     \<Rightarrow> exn + (string \<times> sql_value) list list" where
  "build_results [] column_names results = Inr results"
| "build_results (row # rows) column_names results =
     (case build_row_data (enumerate 0 column_names) row [] of
        Inl ex \<Rightarrow> Inl ex
      | Inr row_data \<Rightarrow> build_results rows column_names (results @ [row_data]))"

text \<open>
  \<open>fields\<close> is \<open>None\<close> or a sequence of column names, \<open>condition\<close> is \<open>None\<close> or a
  tuple; both are tested for truth, so the empty sequence counts as absent.
\<close>

definition db_select ::
  "('w, 'r) engine \<Rightarrow> string \<Rightarrow> string \<Rightarrow> string list option \<Rightarrow> sql_value list option
     \<Rightarrow> 'w state \<Rightarrow> ((exn + (string \<times> sql_value) list list) \<times> 'w state) option" where
  "db_select eng db_path table fields' condition s =
     (let columns = (case fields' of
                       None \<Rightarrow> ''*''
                     | Some fs \<Rightarrow> if fs \<noteq> [] then join '', '' fs else ''*'')
      in case with_db_cursor eng db_path
                (\<lambda>s1.
                   case (case condition of
                           None \<Rightarrow> Inr (''SELECT '' @ columns @ '' FROM '' @ table, [])
                         | Some c \<Rightarrow>
                             if c \<noteq> [] then
                               (if length c = 2
                                then Inr (''SELECT '' @ columns @ '' FROM '' @ table
                                            @ '' where '' @ py_str (c ! 0) @ ''=?'',
                                          [c ! 1])
                                else Inl AssertionError)
                             else Inr (''SELECT '' @ columns @ '' FROM '' @ table, [])) of
                     Inl ex \<Rightarrow> Some (Inl ex, s1)
                   | Inr (query, params) \<Rightarrow>
                       (case cursor_execute eng query (Some params) s1 of
                          None \<Rightarrow> None
                        | Some (Inl ex, s2) \<Rightarrow> Some (Inl ex, s2)
                        | Some (Inr r, s2) \<Rightarrow> fetch_rows_and_names eng s2))
                s of
           None \<Rightarrow> None
         | Some (Inl ex, s3) \<Rightarrow> Some (Inl ex, s3)
         | Some (Inr (rows, column_names), s3) \<Rightarrow>
             (case build_results rows column_names [] of
                Inl ex \<Rightarrow> Some (Inl ex, s3)
              | Inr results \<Rightarrow> Some (Inr results, s3)))"

text \<open>\<open>params\<close> is handed on as given; a call that leaves it out passes \<open>()\<close>.\<close>

definition db_query ::
  "('w, 'r) engine \<Rightarrow> string \<Rightarrow> string \<Rightarrow> sql_value list option
     \<Rightarrow> 'w state \<Rightarrow> ((exn + (string \<times> sql_value) list list) \<times> 'w state) option" where
  "db_query eng db_path query params s =
     (case with_db_cursor eng db_path
             (\<lambda>s1. case cursor_execute eng query params s1 of
                      None \<Rightarrow> None
                    | Some (Inl ex, s2) \<Rightarrow> Some (Inl ex, s2)
                    | Some (Inr r, s2) \<Rightarrow> fetch_rows_and_names eng s2)
             s of
        None \<Rightarrow> None
      | Some (Inl ex, s3) \<Rightarrow> Some (Inl ex, s3)
      | Some (Inr (rows, column_names), s3) \<Rightarrow>
          (case build_results rows column_names [] of
             Inl ex \<Rightarrow> Some (Inl ex, s3)
           | Inr results \<Rightarrow> Some (Inr results, s3)))"

text \<open>
  \<open>field\<close> is a dict with the keys \<open>name\<close> and \<open>type\<close>; a missing key raises before
  the connection is opened. The statement goes to \<open>cursor.execute\<close> itself.
\<close>

definition add_field ::
  "('w, 'r) engine \<Rightarrow> string \<Rightarrow> string \<Rightarrow> (string \<rightharpoonup> string) \<Rightarrow> 'w state
     \<Rightarrow> ((exn + unit) \<times> 'w state) option" where
  "add_field eng db_path tablename field s =
     (case field ''name'' of
        None \<Rightarrow> Some (Inl (KeyError ''name''), s)
      | Some name \<Rightarrow>
          (case field ''type'' of
             None \<Rightarrow> Some (Inl (KeyError ''type''), s)
           | Some ty \<Rightarrow>
               (let query = ''ALTER TABLE '' @ tablename @ '' ADD COLUMN '' @ name
                              @ '' '' @ ty
                in with_db_cursor eng db_path
                     (\<lambda>s1. case cursor_dot_execute eng query [] s1 of
                              (Inl ex, s2) \<Rightarrow> Some (Inl ex, s2)
                            | (Inr r, s2) \<Rightarrow> Some (Inr (), s2))
                     s)))"

section \<open>Vocabulary for the statements\<close>

text \<open>
  The parameters \<open>cursor_execute\<close> binds: \<open>()\<close> when \<open>params\<close> is \<open>None\<close>.
\<close>

definition bound_params :: "sql_value list option \<Rightarrow> sql_value list" where
  "bound_params params = (case params of None \<Rightarrow> [] | Some ps \<Rightarrow> ps)"

text \<open>
  What the engine answers to consecutive executions of one statement:
  \<open>world_after \<dots> n w\<close> is the world after \<open>n\<close> executions started in \<open>w\<close>, and
  \<open>attempt \<dots> n w\<close> is the outcome of execution number \<open>n + 1\<close>.
\<close>

fun world_after :: "('w, 'r) engine \<Rightarrow> string \<Rightarrow> sql_value list \<Rightarrow> nat \<Rightarrow> 'w \<Rightarrow> 'w" where
  "world_after eng query params 0 w = w"
| "world_after eng query params (Suc n) w =
     world_after eng query params n (snd (sql_execute eng query params w))"

definition attempt ::
  "('w, 'r) engine \<Rightarrow> string \<Rightarrow> sql_value list \<Rightarrow> nat \<Rightarrow> 'w \<Rightarrow> exn + 'r" where
  "attempt eng query params n w =
     fst (sql_execute eng query params (world_after eng query params n w))"

fun raises_OperationalError :: "exn + 'r \<Rightarrow> bool" where
  "raises_OperationalError (Inl ex) = is_OperationalError ex"
| "raises_OperationalError (Inr r) = False"

text \<open>
  The events of \<open>k\<close> failed attempts that are each followed by a retry, the first of
  them made with the counter at \<open>i\<close> in the world \<open>w\<close>.
\<close>

fun retry_events ::
  "('w, 'r) engine \<Rightarrow> string \<Rightarrow> sql_value list \<Rightarrow> int \<Rightarrow> nat \<Rightarrow> 'w \<Rightarrow> event list" where
  "retry_events eng query params i 0 w = []"
| "retry_events eng query params i (Suc k) w =
     [Execute query params,
      Logger_error retry_message [LStr query, LInt (DB_RETRIES - (i + 1))],
      Logger_error_exn (projl (fst (sql_execute eng query params w))),
      Sleep 1]
     @ retry_events eng query params (i + 1) k (snd (sql_execute eng query params w))"

fun is_Execute :: "event \<Rightarrow> bool" where
  "is_Execute (Execute query params) = True"
| "is_Execute e = False"

fun is_retry_log :: "event \<Rightarrow> bool" where
  "is_retry_log (Logger_error msg args) = True"
| "is_retry_log e = False"

fun is_Sleep :: "event \<Rightarrow> bool" where
  "is_Sleep (Sleep n) = True"
| "is_Sleep e = False"

definition count_events :: "(event \<Rightarrow> bool) \<Rightarrow> event list \<Rightarrow> nat" where
  "count_events P evs = length (filter P evs)"

section \<open>Engines for concrete runs\<close>

text \<open>
  An engine that answers the successive executions from a script, whatever the
  statement; its world is the number of executions made so far, and its connections
  open, commit and close without fail.
\<close>

definition scripted_engine ::
  "(nat \<Rightarrow> exn + nat) \<Rightarrow> sql_value list list \<Rightarrow> string list option \<Rightarrow> (nat, nat) engine" where
  "scripted_engine script rows names =
     \<lparr>sql_connect = (\<lambda>db_path n. (Inr (), n)),
      sql_execute = (\<lambda>query params n. (script n, Suc n)),
      sql_fetchall = (\<lambda>n. rows),
      sql_description = (\<lambda>n. names),
      sql_lastrowid = (\<lambda>n. None),
      sql_commit = (\<lambda>n. (Inr (), n)),
      sql_close = (\<lambda>n. (Inr (), n))\<rparr>"

definition locked :: "nat \<Rightarrow> exn + nat" where
  "locked n = Inl (OperationalError ''database is locked'')"

definition locked_twice :: "nat \<Rightarrow> exn + nat" where
  "locked_twice n = (if n < 2 then Inl (OperationalError ''database is locked'') else Inr n)"

definition answered :: "nat \<Rightarrow> exn + nat" where
  "answered n = Inr n"

definition constraint_failed :: "nat \<Rightarrow> exn + nat" where
  "constraint_failed n = Inl (IntegrityError ''UNIQUE constraint failed'')"

definition initial :: "nat state" where
  "initial = \<lparr>world = 0, trace = []\<rparr>"

text \<open>The trace of a call that finds the database locked at every attempt.\<close>

definition persistent_failure_trace :: "event list" where
  "persistent_failure_trace =
     [Execute ''select 1'' [],
      Logger_error retry_message [LStr ''select 1'', LInt 4],
      Logger_error_exn (OperationalError ''database is locked''),
      Sleep 1,
      Execute ''select 1'' [],
      Logger_error retry_message [LStr ''select 1'', LInt 3],
      Logger_error_exn (OperationalError ''database is locked''),
      Sleep 1,
      Execute ''select 1'' [],
      Logger_error retry_message [LStr ''select 1'', LInt 2],
      Logger_error_exn (OperationalError ''database is locked''),
      Sleep 1,
      Execute ''select 1'' [],
      Logger_error retry_message [LStr ''select 1'', LInt 1],
      Logger_error_exn (OperationalError ''database is locked''),
      Sleep 1,
      Execute ''select 1'' []]"

text \<open>
  The world is moved by the calls on the binding and by nothing else, so the world
  after a run is the world before it with the run's events replayed.
\<close>

fun replay :: "('w, 'r) engine \<Rightarrow> event list \<Rightarrow> 'w \<Rightarrow> 'w" where
  "replay eng [] w = w"
| "replay eng (Connect db_path # evs) w = replay eng evs (snd (sql_connect eng db_path w))"
| "replay eng (Execute query params # evs) w =
     replay eng evs (snd (sql_execute eng query params w))"
| "replay eng (Commit # evs) w = replay eng evs (snd (sql_commit eng w))"
| "replay eng (Close # evs) w = replay eng evs (snd (sql_close eng w))"
| "replay eng (e # evs) w = replay eng evs w"

fun is_connection_event :: "event \<Rightarrow> bool" where
  "is_connection_event (Connect db_path) = True"
| "is_connection_event Commit = True"
| "is_connection_event Close = True"
| "is_connection_event e = False"

fun is_Close :: "event \<Rightarrow> bool" where
  "is_Close Close = True"
| "is_Close e = False"

text \<open>
  What a scoped connection is, for a call from state \<open>s\<close> with outcome \<open>res\<close>. The call
  returns; its events \<open>evs\<close> extend the trace, and the world it leaves is the replay of
  them. The first event is the call's own \<open>connect\<close> to \<open>db_path\<close>. When that raises,
  its exception is the outcome and there is no further event. When it returns, there
  follow the events of the body, none of them an event of the connection, and then the
  \<open>commit\<close>, made in the world the body left. When the commit raises, its exception is
  the outcome and it is the last event; when it returns, the \<open>close\<close> follows as the
  last event (and should the close raise, its exception is the outcome).
\<close>

definition scoped_connection ::
  "('w, 'r) engine \<Rightarrow> string \<Rightarrow> 'w state \<Rightarrow> ((exn + 'a) \<times> 'w state) option \<Rightarrow> bool" where
  "scoped_connection eng db_path s res =
     (case res of
        None \<Rightarrow> False
      | Some (r, s') \<Rightarrow>
          (let evs = drop (length (trace s)) (trace s');
               body = takeWhile (\<lambda>e. \<not> is_connection_event e) (tl evs);
               ending = dropWhile (\<lambda>e. \<not> is_connection_event e) (tl evs)
           in take (length (trace s)) (trace s') = trace s
              \<and> world s' = replay eng evs (world s)
              \<and> take 1 evs = [Connect db_path]
              \<and> (case fst (sql_connect eng db_path (world s)) of
                    Inl ex \<Rightarrow> r = Inl ex \<and> tl evs = []
                  | Inr u \<Rightarrow>
                      (case fst (sql_commit eng (replay eng (Connect db_path # body) (world s))) of
                         Inl ex \<Rightarrow> r = Inl ex \<and> ending = [Commit]
                       | Inr u \<Rightarrow>
                           ending = [Commit, Close]
                           \<and> (case fst (sql_close eng
                                           (replay eng (Connect db_path # body @ [Commit])
                                              (world s))) of
                                 Inl ex \<Rightarrow> r = Inl ex
                               | Inr u \<Rightarrow> True)))))"

text \<open>
  An engine that counts the calls made on it: executions are answered from a script, the
  commit has a fixed outcome, connect and close return.
\<close>

record calls =
  connects :: nat
  executions :: nat
  commits :: nat
  closes :: nat

definition counting_engine :: "(nat \<Rightarrow> exn + nat) \<Rightarrow> exn + unit \<Rightarrow> (calls, nat) engine" where
  "counting_engine script commit_outcome =
     \<lparr>sql_connect = (\<lambda>db_path c. (Inr (), c\<lparr>connects := Suc (connects c)\<rparr>)),
      sql_execute = (\<lambda>query params c. (script (executions c),
                                          c\<lparr>executions := Suc (executions c)\<rparr>)),
      sql_fetchall = (\<lambda>c. []),
      sql_description = (\<lambda>c. None),
      sql_lastrowid = (\<lambda>c. None),
      sql_commit = (\<lambda>c. (commit_outcome, c\<lparr>commits := Suc (commits c)\<rparr>)),
      sql_close = (\<lambda>c. (Inr (), c\<lparr>closes := Suc (closes c)\<rparr>))\<rparr>"

definition no_calls :: "calls state" where
  "no_calls = \<lparr>world = \<lparr>connects = 0, executions = 0, commits = 0, closes = 0\<rparr>, trace = []\<rparr>"

definition year_field :: "string \<rightharpoonup> string" where
  "year_field = [''name'' \<mapsto> ''year'', ''type'' \<mapsto> ''INTEGER'']"

text \<open>
  A result row as a dict: \<open>d\<close> is a dict (its keys are distinct) that holds, under
  each column name of the description, the cell of \<open>row\<close> at the position of that name
  (the last such position, should the description repeat a name), and nothing else.
\<close>

definition row_as_dict :: "string list \<Rightarrow> sql_value list \<Rightarrow> (string \<times> sql_value) list \<Rightarrow> bool" where
  "row_as_dict names row d \<longleftrightarrow>
     length names \<le> length row \<and> distinct (map fst d) \<and> map_of d = Map.empty(names [\<mapsto>] row)"

definition two_games :: "sql_value list list" where
  "two_games = [[Integer 1, Text ''Quake''], [Integer 2, Text ''Doom'']]"

section \<open>The retry loop, attempt by attempt\<close>

lemma world_after_Suc:
  "world_after eng query params (Suc n) w =
   snd (sql_execute eng query params (world_after eng query params n w))"
  by (induction n arbitrary: w) simp_all

lemma loop_retry_once:
  assumes "raises_OperationalError (fst (sql_execute eng query params (world s)))"
    and "i + 1 \<noteq> DB_RETRIES"
  shows "cursor_execute_loop eng query params i s =
         cursor_execute_loop eng query params (i + 1)
           (s\<lparr>world := snd (sql_execute eng query params (world s)),
              trace := trace s @ retry_events eng query params i 1 (world s)\<rparr>)"
proof -
  obtain r w' where e: "sql_execute eng query params (world s) = (r, w')"
    by (cases "sql_execute eng query params (world s)")
  with assms(1) obtain ex where r: "r = Inl ex" and op: "is_OperationalError ex"
    by (cases r) auto
  show ?thesis
    by (subst cursor_execute_loop.simps)
       (simp add: cursor_dot_execute_def e r op assms(2) emit_def Let_def)
qed

lemma loop_retries:
  "(\<forall>n<k. raises_OperationalError (attempt eng query params n (world s))) \<Longrightarrow>
   i + int k < DB_RETRIES \<Longrightarrow>
   cursor_execute_loop eng query params i s =
   cursor_execute_loop eng query params (i + int k)
     (s\<lparr>world := world_after eng query params k (world s),
        trace := trace s @ retry_events eng query params i k (world s)\<rparr>)"
proof (induction k arbitrary: i s)
  case 0
  then show ?case by simp
next
  case (Suc k)
  let ?s1 = "s\<lparr>world := snd (sql_execute eng query params (world s)),
              trace := trace s @ retry_events eng query params i 1 (world s)\<rparr>"
  from Suc.prems(1)
  have first: "raises_OperationalError (fst (sql_execute eng query params (world s)))"
    by (auto simp: attempt_def dest: spec [of _ 0])
  from Suc.prems(2) have ne: "i + 1 \<noteq> DB_RETRIES" by simp
  have rest: "\<forall>n<k. raises_OperationalError (attempt eng query params n (world ?s1))"
    using Suc.prems(1) by (auto simp: attempt_def dest: spec [of _ "Suc n" for n])
  have "cursor_execute_loop eng query params i s =
        cursor_execute_loop eng query params (i + 1) ?s1"
    by (rule loop_retry_once [OF first ne])
  also have "\<dots> = cursor_execute_loop eng query params (i + 1 + int k)
     (?s1\<lparr>world := world_after eng query params k (world ?s1),
        trace := trace ?s1 @ retry_events eng query params (i + 1) k (world ?s1)\<rparr>)"
    using Suc.prems(2) by (intro Suc.IH [OF rest]) simp
  finally show ?case by (simp add: ac_simps)
qed

lemma loop_final_attempt:
  assumes "i + 1 = DB_RETRIES
           \<or> \<not> raises_OperationalError (fst (sql_execute eng query params (world s)))"
  shows "cursor_execute_loop eng query params i s =
         Some (fst (sql_execute eng query params (world s)),
               s\<lparr>world := snd (sql_execute eng query params (world s)),
                  trace := trace s @ [Execute query params]\<rparr>)"
proof -
  obtain r w' where e: "sql_execute eng query params (world s) = (r, w')"
    by (cases "sql_execute eng query params (world s)")
  show ?thesis
  proof (cases r)
    case (Inl ex)
    with assms e have "i + 1 = DB_RETRIES \<or> \<not> is_OperationalError ex" by simp
    then show ?thesis
      by (subst cursor_execute_loop.simps)
         (auto simp: cursor_dot_execute_def e Inl emit_def Let_def)
  next
    case (Inr x)
    then show ?thesis
      by (subst cursor_execute_loop.simps)
         (simp add: cursor_dot_execute_def e emit_def)
  qed
qed

text \<open>
  A whole call: \<open>k \<le> 4\<close> transient failures, then an attempt that ends the loop,
  because it is the fifth or because it does not raise \<open>OperationalError\<close>.
\<close>

lemma cursor_execute_run:
  assumes "k \<le> 4"
    and "\<forall>n<k. raises_OperationalError (attempt eng query (bound_params params) n (world s))"
    and "k = 4 \<or> \<not> raises_OperationalError (attempt eng query (bound_params params) k (world s))"
  shows "cursor_execute eng query params s =
         Some (attempt eng query (bound_params params) k (world s),
               s\<lparr>world := world_after eng query (bound_params params) (Suc k) (world s),
                  trace := trace s @ retry_events eng query (bound_params params) 0 k (world s)
                             @ [Execute query (bound_params params)]\<rparr>)"
proof -
  let ?ps = "bound_params params"
  let ?s1 = "s\<lparr>world := world_after eng query ?ps k (world s),
               trace := trace s @ retry_events eng query ?ps 0 k (world s)\<rparr>"
  have "cursor_execute eng query params s = cursor_execute_loop eng query ?ps 0 s"
    by (simp add: cursor_execute_def bound_params_def)
  also have "\<dots> = cursor_execute_loop eng query ?ps (0 + int k) ?s1"
    using assms(1) by (intro loop_retries [OF assms(2)]) (simp add: DB_RETRIES_def)
  also have "\<dots> = Some (fst (sql_execute eng query ?ps (world ?s1)),
                      ?s1\<lparr>world := snd (sql_execute eng query ?ps (world ?s1)),
                          trace := trace ?s1 @ [Execute query ?ps]\<rparr>)"
    using assms(3) by (intro loop_final_attempt) (auto simp: DB_RETRIES_def attempt_def)
  finally show ?thesis
    by (simp add: attempt_def world_after_Suc del: world_after.simps(2))
qed

lemma filter_Execute_retry_events:
  "filter is_Execute (retry_events eng query params i k w) = replicate k (Execute query params)"
  by (induction k arbitrary: i w) simp_all

lemma count_retry_events:
  "count_events is_Execute (retry_events eng query params i k w) = k"
  "count_events is_retry_log (retry_events eng query params i k w) = k"
  "count_events is_Sleep (retry_events eng query params i k w) = k"
  by (induction k arbitrary: i w) (simp_all add: count_events_def)

lemma retry_events_explicit:
  "retry_events eng query params i k w =
   concat (map (\<lambda>n. [Execute query params,
                      Logger_error retry_message [LStr query, LInt (DB_RETRIES - (i + int n + 1))],
                      Logger_error_exn (projl (attempt eng query params n w)),
                      Sleep 1]) [0..<k])"
proof (induction k arbitrary: i w)
  case 0
  then show ?case by simp
next
  case (Suc k)
  have "[0..<Suc k] = 0 # map Suc [0..<k]"
    unfolding map_Suc_upt by (rule upt_conv_Cons) simp
  then show ?case
    by (simp add: Suc.IH attempt_def comp_def ac_simps del: upt_Suc)
qed

section \<open>The retrying executor: the claims\<close>

text \<open>
  C1. When every execution of the query raises \<open>sqlite3.OperationalError\<close>,
  \<open>cursor_execute\<close> returns control after exactly five executions of that query: the
  fifth execution is the last event of the call, and the exception it raised is the one
  the caller gets.
\<close>

theorem cursor_execute_persistent_failure:
  assumes "\<forall>n. raises_OperationalError (attempt eng query (bound_params params) n (world s))"
  shows "\<exists>ex evs.
           attempt eng query (bound_params params) 4 (world s) = Inl ex
           \<and> is_OperationalError ex
           \<and> cursor_execute eng query params s =
               Some (Inl ex, s\<lparr>world := world_after eng query (bound_params params) 5 (world s),
                               trace := trace s @ evs\<rparr>)
           \<and> filter is_Execute evs = replicate 5 (Execute query (bound_params params))
           \<and> last evs = Execute query (bound_params params)"
proof -
  let ?ps = "bound_params params"
  let ?evs = "retry_events eng query ?ps 0 4 (world s) @ [Execute query ?ps]"
  from assms have "raises_OperationalError (attempt eng query ?ps 4 (world s))" by blast
  then obtain ex where ex: "attempt eng query ?ps 4 (world s) = Inl ex" "is_OperationalError ex"
    by (cases "attempt eng query ?ps 4 (world s)") auto
  have run: "cursor_execute eng query params s =
        Some (attempt eng query ?ps 4 (world s),
              s\<lparr>world := world_after eng query ?ps (Suc 4) (world s), trace := trace s @ ?evs\<rparr>)"
    using assms by (intro cursor_execute_run) simp_all
  have "filter is_Execute ?evs = replicate 5 (Execute query ?ps)"
    by (simp add: filter_Execute_retry_events eval_nat_numeral)
  moreover have "last ?evs = Execute query ?ps" by simp
  ultimately show ?thesis using ex run by (auto simp del: retry_events.simps world_after.simps)
qed

theorem cursor_execute_persistent_failure_witness:
  "(\<forall>n. raises_OperationalError
          (attempt (scripted_engine locked [] None) ''select 1'' (bound_params None) n (world initial)))
   \<and> (\<exists>ex evs.
           attempt (scripted_engine locked [] None) ''select 1'' (bound_params None) 4 (world initial) = Inl ex
           \<and> is_OperationalError ex
           \<and> cursor_execute (scripted_engine locked [] None) ''select 1'' None initial =
               Some (Inl ex, initial\<lparr>world := world_after (scripted_engine locked [] None) ''select 1'' (bound_params None) 5 (world initial),
                               trace := trace initial @ evs\<rparr>)
           \<and> filter is_Execute evs = replicate 5 (Execute ''select 1'' (bound_params None))
           \<and> last evs = Execute ''select 1'' (bound_params None))"
proof -
  have h: "\<forall>n. raises_OperationalError
          (attempt (scripted_engine locked [] None) ''select 1'' (bound_params None) n (world initial))"
    by (simp add: attempt_def scripted_engine_def locked_def)
  show ?thesis
    using h cursor_execute_persistent_failure [OF h] by blast
qed


text \<open>
  C2. When the first \<open>k - 1\<close> executions raise \<open>OperationalError\<close> and execution
  number \<open>k \<le> 5\<close> returns \<open>r\<close>, \<open>cursor_execute\<close> returns \<open>r\<close>, raises nothing, and
  has executed the query \<open>k\<close> times.
\<close>

theorem cursor_execute_success_on_attempt_k:
  assumes "1 \<le> k" and "k \<le> 5"
    and "\<forall>n<k - 1. raises_OperationalError (attempt eng query (bound_params params) n (world s))"
    and "attempt eng query (bound_params params) (k - 1) (world s) = Inr r"
  shows "\<exists>evs.
           cursor_execute eng query params s =
             Some (Inr r, s\<lparr>world := world_after eng query (bound_params params) k (world s),
                             trace := trace s @ evs\<rparr>)
           \<and> filter is_Execute evs = replicate k (Execute query (bound_params params))
           \<and> last evs = Execute query (bound_params params)"
proof -
  let ?ps = "bound_params params"
  let ?evs = "retry_events eng query ?ps 0 (k - 1) (world s) @ [Execute query ?ps]"
  from assms(1) have k: "Suc (k - 1) = k" by simp
  have "cursor_execute eng query params s =
        Some (attempt eng query ?ps (k - 1) (world s),
              s\<lparr>world := world_after eng query ?ps (Suc (k - 1)) (world s),
                 trace := trace s @ ?evs\<rparr>)"
    using assms by (intro cursor_execute_run) simp_all
  then have run: "cursor_execute eng query params s =
        Some (Inr r, s\<lparr>world := world_after eng query ?ps k (world s), trace := trace s @ ?evs\<rparr>)"
    by (simp only: k assms(4))
  have "filter is_Execute ?evs = replicate (k - 1) (Execute query ?ps) @ [Execute query ?ps]"
    by (simp add: filter_Execute_retry_events)
  also have "\<dots> = replicate (Suc (k - 1)) (Execute query ?ps)"
    by (simp only: replicate_append_same replicate.simps)
  finally have "filter is_Execute ?evs = replicate k (Execute query ?ps)"
    by (simp only: k)
  moreover have "last ?evs = Execute query ?ps" by simp
  ultimately show ?thesis using run by blast
qed

theorem cursor_execute_success_on_attempt_k_witness:
  "(1::nat) \<le> 3 \<and> (3::nat) \<le> 5
   \<and> raises_OperationalError
         (attempt (scripted_engine locked_twice [] None) ''select 1'' (bound_params None) 0
            (world initial))
   \<and> raises_OperationalError
         (attempt (scripted_engine locked_twice [] None) ''select 1'' (bound_params None) 1
            (world initial))
   \<and> attempt (scripted_engine locked_twice [] None) ''select 1'' (bound_params None) (3 - 1)
        (world initial) = Inr 2
   \<and> (\<exists>evs.
          cursor_execute (scripted_engine locked_twice [] None) ''select 1'' None initial =
            Some (Inr 2, initial\<lparr>world := world_after (scripted_engine locked_twice [] None)
                                            ''select 1'' (bound_params None) 3 (world initial),
                                  trace := trace initial @ evs\<rparr>)
          \<and> filter is_Execute evs = replicate 3 (Execute ''select 1'' (bound_params None))
          \<and> last evs = Execute ''select 1'' (bound_params None))"
proof -
  have w: "world_after (scripted_engine locked_twice [] None) ''select 1'' ps n m = m + n"
    for ps n m
    by (induction n arbitrary: m) (simp_all add: scripted_engine_def)
  have h1: "\<forall>n<3 - 1. raises_OperationalError
          (attempt (scripted_engine locked_twice [] None) ''select 1'' (bound_params None) n
             (world initial))"
    by (simp add: attempt_def w) (simp add: scripted_engine_def locked_twice_def initial_def)
  have h2: "attempt (scripted_engine locked_twice [] None) ''select 1'' (bound_params None) (3 - 1)
        (world initial) = Inr 2"
    by (simp add: attempt_def w) (simp add: scripted_engine_def locked_twice_def initial_def)
  have "n < 3 - 1 \<longleftrightarrow> n = 0 \<or> n = 1" for n :: nat by auto
  with h1 show ?thesis
    using h2 cursor_execute_success_on_attempt_k [OF _ _ h1 h2] by simp
qed

text \<open>
  C3. When the execution of the query raises an exception that is not an
  \<open>OperationalError\<close>, that exception goes to the caller at once: the call's only event
  is that one execution, with no retry, no sleep and no log entry.
\<close>

theorem cursor_execute_non_transient_error:
  assumes "sql_execute eng query (bound_params params) (world s) = (Inl ex, w')"
    and "\<not> is_OperationalError ex"
  shows "cursor_execute eng query params s =
           Some (Inl ex, s\<lparr>world := w', trace := trace s @ [Execute query (bound_params params)]\<rparr>)"
proof -
  have "cursor_execute eng query params s =
        Some (attempt eng query (bound_params params) 0 (world s),
              s\<lparr>world := world_after eng query (bound_params params) (Suc 0) (world s),
                 trace := trace s @ retry_events eng query (bound_params params) 0 0 (world s)
                            @ [Execute query (bound_params params)]\<rparr>)"
    using assms by (intro cursor_execute_run) (simp_all add: attempt_def)
  then show ?thesis
    using assms(1) by (simp add: attempt_def)
qed

theorem cursor_execute_non_transient_error_witness:
  "sql_execute (scripted_engine constraint_failed [] None) ''insert into t(a) values (?)''
      (bound_params (Some [Integer 1])) (world initial)
     = (Inl (IntegrityError ''UNIQUE constraint failed''), 1)
   \<and> \<not> is_OperationalError (IntegrityError ''UNIQUE constraint failed'')
   \<and> cursor_execute (scripted_engine constraint_failed [] None) ''insert into t(a) values (?)''
        (Some [Integer 1]) initial =
       Some (Inl (IntegrityError ''UNIQUE constraint failed''),
             initial\<lparr>world := 1,
                     trace := trace initial
                        @ [Execute ''insert into t(a) values (?)'' (bound_params (Some [Integer 1]))]\<rparr>)"
proof -
  have h: "sql_execute (scripted_engine constraint_failed [] None) ''insert into t(a) values (?)''
      (bound_params (Some [Integer 1])) (world initial)
     = (Inl (IntegrityError ''UNIQUE constraint failed''), 1)"
    by (simp add: scripted_engine_def constraint_failed_def initial_def)
  show ?thesis
    using h cursor_execute_non_transient_error [OF h] by simp
qed

text \<open>
  C4 as written says that every failed attempt is logged and that a persistent failure
  gives one log entry and one sleep per failed attempt. On a database that stays
  locked the call makes five attempts, all failed, and logs and sleeps four times: the
  fifth failure is raised, not logged.
\<close>

theorem persistent_failure_logs_four_times:
  "cursor_execute (scripted_engine locked [] None) ''select 1'' None initial =
     Some (Inl (OperationalError ''database is locked''),
           \<lparr>world = 5, trace = persistent_failure_trace\<rparr>)
   \<and> count_events is_Execute persistent_failure_trace = 5
   \<and> count_events is_retry_log persistent_failure_trace = 4
   \<and> count_events is_Sleep persistent_failure_trace = 4
   \<and> drop 16 persistent_failure_trace = [Execute ''select 1'' []]"
  by (simp add: cursor_execute_def cursor_execute_loop.simps cursor_dot_execute_def
        scripted_engine_def locked_def initial_def emit_def DB_RETRIES_def
        persistent_failure_trace_def count_events_def)

text \<open>
  C4, amended. A call consists of \<open>k \<le> 4\<close> attempts that fail on \<open>OperationalError\<close>
  and one attempt that ends the loop (the fifth, or one that does not raise
  \<open>OperationalError\<close>). Each of the \<open>k\<close> failures is followed by the retry message
  with the number of retries left, \<open>5\<close> minus the failures so far, by the exception, and
  by a sleep of 1, so there is one sleep between consecutive attempts; the attempt that
  ends the loop is followed by nothing. A persistent failure is \<open>k = 4\<close>: five failed
  attempts, four log entries, four sleeps.
\<close>

theorem cursor_execute_logs_and_sleeps:
  assumes "k \<le> 4"
    and "\<forall>n<k. raises_OperationalError (attempt eng query (bound_params params) n (world s))"
    and "k = 4 \<or> \<not> raises_OperationalError (attempt eng query (bound_params params) k (world s))"
  shows "\<exists>s'. cursor_execute eng query params s
                 = Some (attempt eng query (bound_params params) k (world s), s')
           \<and> trace s' = trace s
                @ concat (map (\<lambda>n. [Execute query (bound_params params),
                                     Logger_error retry_message
                                       [LStr query, LInt (DB_RETRIES - (int n + 1))],
                                     Logger_error_exn
                                       (projl (attempt eng query (bound_params params) n (world s))),
                                     Sleep 1])
                              [0..<k])
                @ [Execute query (bound_params params)]
           \<and> count_events is_Execute (drop (length (trace s)) (trace s')) = k + 1
           \<and> count_events is_retry_log (drop (length (trace s)) (trace s')) = k
           \<and> count_events is_Sleep (drop (length (trace s)) (trace s')) = k"
proof -
  let ?ps = "bound_params params"
  let ?evs = "retry_events eng query ?ps 0 k (world s) @ [Execute query ?ps]"
  let ?s' = "s\<lparr>world := world_after eng query ?ps (Suc k) (world s), trace := trace s @ ?evs\<rparr>"
  have run: "cursor_execute eng query params s = Some (attempt eng query ?ps k (world s), ?s')"
    using assms by (rule cursor_execute_run)
  have tr: "trace ?s' = trace s @ retry_events eng query ?ps 0 k (world s) @ [Execute query ?ps]"
    by simp
  have counts: "count_events is_Execute ?evs = k + 1" "count_events is_retry_log ?evs = k"
    "count_events is_Sleep ?evs = k"
    using count_retry_events [of eng query ?ps 0 k "world s"]
    by (simp_all add: count_events_def)
  show ?thesis
    apply (rule exI [of _ ?s'])
    apply (simp only: run tr append_eq_conv_conj drop_append length_append)
    using counts apply (simp add: retry_events_explicit del: retry_events.simps world_after.simps)
    done
qed

theorem cursor_execute_logs_and_sleeps_witness:
  "(4::nat) \<le> 4
   \<and> raises_OperationalError
         (attempt (scripted_engine locked [] None) ''select 1'' (bound_params None) 0 (world initial))
   \<and> raises_OperationalError
         (attempt (scripted_engine locked [] None) ''select 1'' (bound_params None) 1 (world initial))
   \<and> raises_OperationalError
         (attempt (scripted_engine locked [] None) ''select 1'' (bound_params None) 2 (world initial))
   \<and> raises_OperationalError
         (attempt (scripted_engine locked [] None) ''select 1'' (bound_params None) 3 (world initial))
   \<and> (\<exists>s'. cursor_execute (scripted_engine locked [] None) ''select 1'' None initial
                 = Some (attempt (scripted_engine locked [] None) ''select 1'' (bound_params None) 4
                           (world initial), s')
           \<and> trace s' = trace initial
                @ concat (map (\<lambda>n. [Execute ''select 1'' (bound_params None),
                                     Logger_error retry_message
                                       [LStr ''select 1'', LInt (DB_RETRIES - (int n + 1))],
                                     Logger_error_exn
                                       (projl (attempt (scripted_engine locked [] None) ''select 1''
                                                 (bound_params None) n (world initial))),
                                     Sleep 1])
                              [0..<4])
                @ [Execute ''select 1'' (bound_params None)]
           \<and> count_events is_Execute (drop (length (trace initial)) (trace s')) = 4 + 1
           \<and> count_events is_retry_log (drop (length (trace initial)) (trace s')) = 4
           \<and> count_events is_Sleep (drop (length (trace initial)) (trace s')) = 4)"
proof -
  have h: "\<forall>n<4. raises_OperationalError
          (attempt (scripted_engine locked [] None) ''select 1'' (bound_params None) n (world initial))"
    by (simp add: attempt_def scripted_engine_def locked_def)
  show ?thesis
    using h cursor_execute_logs_and_sleeps [OF _ h] by simp
qed

section \<open>The helpers: auxiliary facts\<close>

text \<open>\<open>_decode_utf8_values\<close> returns its argument.\<close>

lemma decode_utf8_values_loop_id: "decode_utf8_values_loop i values_list = values_list"
proof (induction i values_list rule: decode_utf8_values_loop.induct)
  case (1 i values_list)
  show ?case
  proof (cases "i < length values_list")
    case True
    with "1" show ?thesis
      by (subst decode_utf8_values_loop.simps) (simp add: Let_def)
  next
    case False
    then show ?thesis
      by (subst decode_utf8_values_loop.simps) simp
  qed
qed

lemma decode_utf8_values_id: "decode_utf8_values values_list = values_list"
  by (simp add: decode_utf8_values_def decode_utf8_values_loop_id)

lemma concat_placeholders:
  "concat (replicate (Suc n) ''?, '') = join '', '' (replicate (Suc n) ''?'') @ '', ''"
  by (induction n) simp_all

lemma placeholders_join:
  "take (length (concat (replicate n ''?, '')) - 2) (concat (replicate n ''?, ''))
   = join '', '' (replicate n ''?'')"
proof (cases n)
  case 0
  then show ?thesis by simp
next
  case (Suc m)
  show ?thesis
    unfolding Suc concat_placeholders by simp
qed

text \<open>Replaying a trace in two parts.\<close>

lemma replay_append: "replay eng (xs @ ys) w = replay eng ys (replay eng xs w)"
  by (induction eng xs w rule: replay.induct) simp_all

lemma replay_retry_events:
  "replay eng (retry_events eng query params i k w) w = world_after eng query params k w"
  by (induction k arbitrary: i w) simp_all

text \<open>The loop returns from every start below the retry limit.\<close>

lemma cursor_execute_loop_returns:
  "i < DB_RETRIES \<Longrightarrow>
   \<exists>r s' evs. cursor_execute_loop eng query params i s = Some (r, s')
      \<and> trace s' = trace s @ Execute query params # evs
      \<and> filter is_connection_event evs = []
      \<and> world s' = replay eng (Execute query params # evs) (world s)"
proof (induction "nat (DB_RETRIES - i)" arbitrary: i s)
  case 0
  then show ?case by simp
next
  case (Suc m)
  let ?out = "sql_execute eng query params (world s)"
  show ?case
  proof (cases "i + 1 = DB_RETRIES \<or> \<not> raises_OperationalError (fst ?out)")
    case True
    have "cursor_execute_loop eng query params i s =
          Some (fst ?out, s\<lparr>world := snd ?out, trace := trace s @ [Execute query params]\<rparr>)"
      using True by (rule loop_final_attempt)
    then show ?thesis by simp
  next
    case False
    let ?s1 = "s\<lparr>world := snd ?out,
                 trace := trace s @ retry_events eng query params i 1 (world s)\<rparr>"
    from False have step: "cursor_execute_loop eng query params i s =
          cursor_execute_loop eng query params (i + 1) ?s1"
      by (intro loop_retry_once) simp_all
    have m: "m = nat (DB_RETRIES - (i + 1))" using Suc.hyps(2) by simp
    have lt: "i + 1 < DB_RETRIES" using False Suc.prems(1) by simp
    from Suc.hyps(1) [OF m lt, of ?s1]
    obtain r s' evs where "cursor_execute_loop eng query params (i + 1) ?s1 = Some (r, s')"
      "trace s' = trace ?s1 @ Execute query params # evs"
      "filter is_connection_event evs = []"
      "world s' = replay eng (Execute query params # evs) (world ?s1)"
      by blast
    then show ?thesis
      unfolding step by simp
  qed
qed

text \<open>
  \<open>cursor_execute\<close> returns from every state; its events begin with an execution of
  the query and hold no event of the connection, and the world it leaves is the replay
  of them.
\<close>

lemma cursor_execute_returns:
  "\<exists>r s' evs. cursor_execute eng query params s = Some (r, s')
      \<and> trace s' = trace s @ Execute query (bound_params params) # evs
      \<and> filter is_connection_event evs = []
      \<and> world s' = replay eng (Execute query (bound_params params) # evs) (world s)"
proof -
  have "cursor_execute eng query params s = cursor_execute_loop eng query (bound_params params) 0 s"
    by (simp add: cursor_execute_def bound_params_def)
  moreover have "(0::int) < DB_RETRIES" by (simp add: DB_RETRIES_def)
  ultimately show ?thesis
    using cursor_execute_loop_returns [of 0 eng query "bound_params params" s] by simp
qed

lemma cursor_execute_quiet:
  obtains r s' evs where "cursor_execute eng query params s = Some (r, s')"
    and "trace s' = trace s @ evs" and "filter is_connection_event evs = []"
    and "world s' = replay eng evs (world s)"
  using cursor_execute_returns [of eng query params s] by force

lemma cursor_execute_single_attempt:
  assumes "\<not> raises_OperationalError (fst (sql_execute eng query (bound_params params) (world s)))"
  shows "cursor_execute eng query params s =
         Some (fst (sql_execute eng query (bound_params params) (world s)),
               s\<lparr>world := snd (sql_execute eng query (bound_params params) (world s)),
                  trace := trace s @ [Execute query (bound_params params)]\<rparr>)"
  using cursor_execute_run [of 0 eng query params s] assms by (simp add: attempt_def)

text \<open>What \<open>with db_cursor(db_path)\<close> adds around a body that leaves the connection alone.\<close>

lemma split_at_connection_event:
  assumes "filter is_connection_event body = []" and "is_connection_event e"
  shows "takeWhile (\<lambda>e. \<not> is_connection_event e) (body @ e # rest) = body"
    and "dropWhile (\<lambda>e. \<not> is_connection_event e) (body @ e # rest) = e # rest"
  using assms by (induction body) (auto split: if_splits)

lemma scoped_connect_raises:
  assumes "sql_connect eng db_path (world s) = (Inl ex, w1)"
  shows "scoped_connection eng db_path s
           (Some (Inl ex, s\<lparr>world := w1, trace := trace s @ [Connect db_path]\<rparr>))"
  unfolding scoped_connection_def using assms by simp

lemma scoped_commit_raises:
  assumes "fst (sql_connect eng db_path (world s)) = Inr u"
    and "filter is_connection_event body = []"
    and "sql_commit eng (replay eng (Connect db_path # body) (world s)) = (Inl ex, w3)"
    and "trace s' = trace s @ Connect db_path # body @ [Commit]"
    and "world s' = w3"
  shows "scoped_connection eng db_path s (Some (Inl ex, s'))"
proof -
  have evs: "drop (length (trace s)) (trace s') = Connect db_path # body @ [Commit]"
    and pre: "take (length (trace s)) (trace s') = trace s"
    by (simp_all add: assms(4))
  have tk: "takeWhile (\<lambda>e. \<not> is_connection_event e) (body @ [Commit]) = body"
    and dw: "dropWhile (\<lambda>e. \<not> is_connection_event e) (body @ [Commit]) = [Commit]"
    using split_at_connection_event [OF assms(2), of Commit "[]"] by simp_all
  have w: "replay eng (Connect db_path # body @ [Commit]) (world s) = w3"
    using assms(3) replay_append [of eng "Connect db_path # body" "[Commit]" "world s"]
    by simp
  show ?thesis
    unfolding scoped_connection_def Let_def option.case prod.case evs pre list.sel tk dw
      assms(1) assms(3) sum.case fst_conv w assms(5)
    by simp
qed

lemma scoped_closed:
  assumes "fst (sql_connect eng db_path (world s)) = Inr u"
    and "filter is_connection_event body = []"
    and "sql_commit eng (replay eng (Connect db_path # body) (world s)) = (Inr u', w3)"
    and "sql_close eng w3 = (rl, w4)"
    and "trace s' = trace s @ Connect db_path # body @ [Commit, Close]"
    and "world s' = w4"
    and "\<And>ex. rl = Inl ex \<Longrightarrow> r = Inl ex"
  shows "scoped_connection eng db_path s (Some (r, s'))"
proof -
  have evs: "drop (length (trace s)) (trace s') = Connect db_path # body @ [Commit, Close]"
    and pre: "take (length (trace s)) (trace s') = trace s"
    by (simp_all add: assms(5))
  have tk: "takeWhile (\<lambda>e. \<not> is_connection_event e) (body @ [Commit, Close]) = body"
    and dw: "dropWhile (\<lambda>e. \<not> is_connection_event e) (body @ [Commit, Close])
             = [Commit, Close]"
    using split_at_connection_event [OF assms(2), of Commit "[Close]"] by simp_all
  have w3: "replay eng (Connect db_path # body @ [Commit]) (world s) = w3"
    using assms(3) replay_append [of eng "Connect db_path # body" "[Commit]" "world s"]
    by simp
  have w4: "replay eng (Connect db_path # body @ [Commit, Close]) (world s) = w4"
    using assms(3,4) replay_append [of eng "Connect db_path # body" "[Commit, Close]" "world s"]
    by simp
  show ?thesis
    unfolding scoped_connection_def Let_def option.case prod.case evs pre list.sel tk dw
      assms(1) assms(3) assms(4) sum.case fst_conv w3 w4 assms(6)
    using assms(7) by (cases rl) simp_all
qed

lemma with_db_cursor_scoped:
  assumes "\<And>s1. \<exists>r s2 evs. body s1 = Some (r, s2) \<and> trace s2 = trace s1 @ evs
              \<and> filter is_connection_event evs = [] \<and> world s2 = replay eng evs (world s1)"
  shows "scoped_connection eng db_path s (with_db_cursor eng db_path body s)"
proof -
  obtain rc w1 where c: "sql_connect eng db_path (world s) = (rc, w1)"
    by (cases "sql_connect eng db_path (world s)")
  let ?s1 = "s\<lparr>world := w1, trace := trace s @ [Connect db_path]\<rparr>"
  have enter: "db_cursor_enter eng db_path s = (rc, ?s1)"
    by (simp add: db_cursor_enter_def c emit_def)
  show ?thesis
  proof (cases rc)
    case (Inl ex)
    then have "with_db_cursor eng db_path body s = Some (Inl ex, ?s1)"
      by (simp add: with_db_cursor_def enter)
    then show ?thesis
      using scoped_connect_raises [of eng db_path s ex w1] c Inl by simp
  next
    case (Inr u)
    then have fc: "fst (sql_connect eng db_path (world s)) = Inr u" by (simp add: c)
    from assms [of ?s1] obtain r s2 evs where b: "body ?s1 = Some (r, s2)"
      and t2: "trace s2 = trace s @ Connect db_path # evs"
      and q: "filter is_connection_event evs = []"
      and w2: "world s2 = replay eng evs w1"
      by auto
    have rp: "replay eng (Connect db_path # evs) (world s) = world s2"
      by (simp add: c w2)
    obtain rm w3 where m: "sql_commit eng (world s2) = (rm, w3)"
      by (cases "sql_commit eng (world s2)")
    show ?thesis
    proof (cases rm)
      case (Inl ex)
      let ?s3 = "s2\<lparr>world := w3, trace := trace s2 @ [Commit]\<rparr>"
      have "db_cursor_exit eng s2 = (Inl ex, ?s3)"
        by (simp add: db_cursor_exit_def m Inl emit_def)
      then have "with_db_cursor eng db_path body s = Some (Inl ex, ?s3)"
        by (simp add: with_db_cursor_def enter Inr b)
      moreover have "scoped_connection eng db_path s (Some (Inl ex, ?s3))"
        by (rule scoped_commit_raises [OF fc q, of ex w3]) (simp_all add: rp m Inl t2 del: replay.simps)
      ultimately show ?thesis by simp
    next
      case rmr: (Inr u')
      obtain rl w4 where l: "sql_close eng w3 = (rl, w4)"
        by (cases "sql_close eng w3")
      let ?s3 = "s2\<lparr>world := w4, trace := trace s2 @ [Commit, Close]\<rparr>"
      have ex: "db_cursor_exit eng s2 = (rl, ?s3)"
        by (simp add: db_cursor_exit_def m rmr l emit_def)
      have "\<exists>r'. with_db_cursor eng db_path body s = Some (r', ?s3)
                \<and> (\<forall>ex. rl = Inl ex \<longrightarrow> r' = Inl ex)"
        by (cases rl) (simp_all add: with_db_cursor_def enter Inr b ex)
      then obtain r' where wr: "with_db_cursor eng db_path body s = Some (r', ?s3)"
        and rr: "\<And>ex. rl = Inl ex \<Longrightarrow> r' = Inl ex" by blast
      have "scoped_connection eng db_path s (Some (r', ?s3))"
        by (rule scoped_closed [OF fc q _ l, of u' _ r']) (simp_all add: rp m rmr t2 rr del: replay.simps)
      with wr show ?thesis by simp
    qed
  qed
qed

text \<open>A later change of the outcome that keeps exceptions keeps the scope.\<close>

lemma scoped_connection_outcome:
  assumes "scoped_connection eng db_path s (Some (r, s'))"
    and "\<And>ex. r = Inl ex \<Longrightarrow> r' = Inl ex"
  shows "scoped_connection eng db_path s (Some (r', s'))"
  using assms unfolding scoped_connection_def
  by (auto simp: Let_def split: sum.splits)

text \<open>The five helpers, one by one.\<close>

lemma scoped_connection_Some:
  assumes "scoped_connection eng db_path s res"
  obtains r s' where "res = Some (r, s')"
  using assms by (cases res) (auto simp: scoped_connection_def)

lemma executor_body_quiet:
  assumes "\<And>r s2. \<exists>r' evs'. k r s2 = Some (r', s2\<lparr>trace := trace s2 @ evs'\<rparr>)
              \<and> filter is_connection_event evs' = [] \<and> replay eng evs' = (\<lambda>w. w)"
  shows "\<exists>r s2 evs. (case cursor_execute eng query params s1 of
                        None \<Rightarrow> None
                      | Some (r, s2) \<Rightarrow> k r s2) = Some (r, s2)
           \<and> trace s2 = trace s1 @ evs
           \<and> filter is_connection_event evs = [] \<and> world s2 = replay eng evs (world s1)"
proof -
  obtain r s2 evs where ce: "cursor_execute eng query params s1 = Some (r, s2)"
    "trace s2 = trace s1 @ evs" "filter is_connection_event evs = []"
    "world s2 = replay eng evs (world s1)"
    by (rule cursor_execute_quiet)
  from assms [of r s2] obtain r' evs' where k: "k r s2 = Some (r', s2\<lparr>trace := trace s2 @ evs'\<rparr>)"
    "filter is_connection_event evs' = []" "replay eng evs' = (\<lambda>w. w)" by blast
  show ?thesis
    using ce k by (simp add: replay_append)
qed

lemma db_insert_scoped:
  "scoped_connection eng db_path s (db_insert eng db_path table fields' s)"
proof -
  have "scoped_connection eng db_path s
          (with_db_cursor eng db_path
             (\<lambda>s1. case cursor_execute eng
                        (''insert into '' @ table @ ''('' @ join '', '' (map fst fields')
                           @ '') values ('' @ join '', '' (replicate (length fields') ''?'')
                           @ '')'')
                        (Some (map snd fields')) s1 of
                    None \<Rightarrow> None
                  | Some (r, s2) \<Rightarrow>
                      (case r of
                         Inl ex \<Rightarrow>
                           if is_IntegrityError ex
                           then Some (Inl ex, emit (Print_values (map snd fields'))
                                  (emit (Print_str (join '', '' (map fst fields'))) s2))
                           else Some (Inl ex, s2)
                       | Inr v \<Rightarrow> Some (Inr (sql_lastrowid eng (world s2)), s2)))
             s)"
  proof (rule with_db_cursor_scoped, rule executor_body_quiet)
    fix r :: "exn + 'b" and s2 :: "'a state"
    show "\<exists>r' evs'. (case r of
                         Inl ex \<Rightarrow>
                           if is_IntegrityError ex
                           then Some (Inl ex, emit (Print_values (map snd fields'))
                                  (emit (Print_str (join '', '' (map fst fields'))) s2))
                           else Some (Inl ex, s2)
                       | Inr v \<Rightarrow> Some (Inr (sql_lastrowid eng (world s2)), s2))
             = Some (r', s2\<lparr>trace := trace s2 @ evs'\<rparr>)
           \<and> filter is_connection_event evs' = [] \<and> replay eng evs' = (\<lambda>w. w)"
    proof (cases r)
      case (Inl ex)
      show ?thesis
      proof (cases "is_IntegrityError ex")
        case True
        then show ?thesis
          by (intro exI [of _ "Inl ex"]
                exI [of _ "[Print_str (join '', '' (map fst fields')), Print_values (map snd fields')]"])
             (simp add: Inl emit_def fun_eq_iff)
      next
        case False
        then show ?thesis
          by (intro exI [of _ "Inl ex"] exI [of _ "[]"]) (simp add: Inl fun_eq_iff)
      qed
    next
      case (Inr v)
      then show ?thesis
        by (intro exI [of _ "Inr (sql_lastrowid eng (world s2))"] exI [of _ "[]"])
           (simp add: fun_eq_iff)
    qed
  qed
  then show ?thesis
    by (simp add: db_insert_def Let_def decode_utf8_values_id placeholders_join)
qed

lemma executor_body_same_state:
  assumes "\<And>r s2. \<exists>r'. k r s2 = Some (r', s2)"
  shows "\<exists>r s2 evs. (case cursor_execute eng query params s1 of
                        None \<Rightarrow> None
                      | Some (r, s2) \<Rightarrow> k r s2) = Some (r, s2)
           \<and> trace s2 = trace s1 @ evs
           \<and> filter is_connection_event evs = [] \<and> world s2 = replay eng evs (world s1)"
proof (rule executor_body_quiet)
  fix r s2
  from assms [of r s2] obtain r' where "k r s2 = Some (r', s2)" by blast
  then show "\<exists>r' evs'. k r s2 = Some (r', s2\<lparr>trace := trace s2 @ evs'\<rparr>)
               \<and> filter is_connection_event evs' = [] \<and> replay eng evs' = (\<lambda>w. w)"
    by (intro exI [of _ r'] exI [of _ "[]"]) (simp add: fun_eq_iff)
qed

lemma db_update_scoped:
  assumes "2 \<le> length row"
  shows "scoped_connection eng db_path s (db_update eng db_path table updated_fields row s)"
proof -
  have "scoped_connection eng db_path s
          (with_db_cursor eng db_path
             (\<lambda>s1. case cursor_execute eng
                          (''UPDATE '' @ table @ '' SET ''
                             @ (join ''=?, '' (map fst updated_fields) @ ''=?'')
                             @ '' WHERE '' @ (py_str (row ! 0) @ ''=?''))
                          (Some (map snd updated_fields @ [row ! 1])) s1 of
                      None \<Rightarrow> None
                    | Some (r, s2) \<Rightarrow>
                        (case r of Inl ex \<Rightarrow> Some (Inl ex, s2) | Inr v \<Rightarrow> Some (Inr (), s2)))
             s)"
    by (rule with_db_cursor_scoped, rule executor_body_same_state) (simp split: sum.splits)
  moreover from assms have "row \<noteq> []" "\<not> length row < 2" by auto
  ultimately show ?thesis
    by (simp add: db_update_def Let_def decode_utf8_values_id)
qed

lemma db_delete_scoped:
  "scoped_connection eng db_path s (db_delete eng db_path table field val s)"
proof -
  have "scoped_connection eng db_path s
          (with_db_cursor eng db_path
             (\<lambda>s1. case cursor_execute eng
                          (''delete from '' @ table @ '' where '' @ field @ ''=?'')
                          (Some [val]) s1 of
                      None \<Rightarrow> None
                    | Some (r, s2) \<Rightarrow>
                        (case r of Inl ex \<Rightarrow> Some (Inl ex, s2) | Inr v \<Rightarrow> Some (Inr (), s2)))
             s)"
    by (rule with_db_cursor_scoped, rule executor_body_same_state) (simp split: sum.splits)
  then show ?thesis
    by (simp add: db_delete_def)
qed

lemma fetch_body_quiet:
  "\<exists>r s2 evs. (case cursor_execute eng query params s1 of
                  None \<Rightarrow> None
                | Some (r, s2) \<Rightarrow>
                    (case r of Inl ex \<Rightarrow> Some (Inl ex, s2)
                     | Inr v \<Rightarrow> fetch_rows_and_names eng s2)) = Some (r, s2)
     \<and> trace s2 = trace s1 @ evs
     \<and> filter is_connection_event evs = [] \<and> world s2 = replay eng evs (world s1)"
  by (rule executor_body_same_state)
     (simp add: fetch_rows_and_names_def Let_def split: sum.splits option.splits)

lemma results_keep_scope:
  assumes "scoped_connection eng db_path s fetched"
  shows "scoped_connection eng db_path s
           (case fetched of
              None \<Rightarrow> None
            | Some (Inl ex, s3) \<Rightarrow> Some (Inl ex, s3)
            | Some (Inr (rows, column_names), s3) \<Rightarrow>
                (case build_results rows column_names [] of
                   Inl ex \<Rightarrow> Some (Inl ex, s3)
                 | Inr results \<Rightarrow> Some (Inr results, s3)))"
proof -
  from assms obtain r s' where f: "fetched = Some (r, s')"
    by (rule scoped_connection_Some)
  show ?thesis
  proof (cases r)
    case (Inl ex)
    with assms f show ?thesis
      by (auto intro: scoped_connection_outcome)
  next
    case (Inr rn)
    obtain rows column_names where rn: "rn = (rows, column_names)" by (cases rn)
    show ?thesis
      using assms unfolding f Inr rn
      by (cases "build_results rows column_names []")
         (auto intro: scoped_connection_outcome)
  qed
qed

lemma db_query_scoped:
  "scoped_connection eng db_path s (db_query eng db_path query params s)"
  unfolding db_query_def
  by (rule results_keep_scope, rule with_db_cursor_scoped, rule fetch_body_quiet)

lemma db_select_scoped:
  "scoped_connection eng db_path s (db_select eng db_path table fields' condition s)"
  unfolding db_select_def Let_def
proof (rule results_keep_scope, rule with_db_cursor_scoped)
  fix s1 :: "'a state"
  define stmt :: "exn + string \<times> sql_value list" where "stmt =
    (case condition of
       None \<Rightarrow> Inr (''SELECT '' @ (case fields' of None \<Rightarrow> ''*''
                     | Some fs \<Rightarrow> if fs \<noteq> [] then join '', '' fs else ''*'') @ '' FROM '' @ table, [])
     | Some c \<Rightarrow>
         if c \<noteq> [] then
           (if length c = 2
            then Inr (''SELECT '' @ (case fields' of None \<Rightarrow> ''*''
                     | Some fs \<Rightarrow> if fs \<noteq> [] then join '', '' fs else ''*'') @ '' FROM '' @ table
                        @ '' where '' @ py_str (c ! 0) @ ''=?'',
                      [c ! 1])
            else Inl AssertionError)
         else Inr (''SELECT '' @ (case fields' of None \<Rightarrow> ''*''
                     | Some fs \<Rightarrow> if fs \<noteq> [] then join '', '' fs else ''*'') @ '' FROM '' @ table, []))"
  have "\<exists>r s2 evs.
          (case stmt of
             Inl ex \<Rightarrow> Some (Inl ex, s1)
           | Inr (query, params) \<Rightarrow>
               (case cursor_execute eng query (Some params) s1 of
                  None \<Rightarrow> None
                | Some (Inl ex, s2) \<Rightarrow> Some (Inl ex, s2)
                | Some (Inr r, s2) \<Rightarrow> fetch_rows_and_names eng s2)) = Some (r, s2)
          \<and> trace s2 = trace s1 @ evs
          \<and> filter is_connection_event evs = [] \<and> world s2 = replay eng evs (world s1)"
  proof (cases stmt)
    case (Inl ex)
    then show ?thesis by simp
  next
    case (Inr qp)
    obtain query params where qp: "qp = (query, params)" by (cases qp)
    show ?thesis
      unfolding Inr qp sum.case prod.case by (rule fetch_body_quiet)
  qed
  then show "\<exists>r s2 evs.
          (case (case condition of
       None \<Rightarrow> Inr (''SELECT '' @ (case fields' of None \<Rightarrow> ''*''
                     | Some fs \<Rightarrow> if fs \<noteq> [] then join '', '' fs else ''*'') @ '' FROM '' @ table, [])
     | Some c \<Rightarrow>
         if c \<noteq> [] then
           (if length c = 2
            then Inr (''SELECT '' @ (case fields' of None \<Rightarrow> ''*''
                     | Some fs \<Rightarrow> if fs \<noteq> [] then join '', '' fs else ''*'') @ '' FROM '' @ table
                        @ '' where '' @ py_str (c ! 0) @ ''=?'',
                      [c ! 1])
            else Inl AssertionError)
         else Inr (''SELECT '' @ (case fields' of None \<Rightarrow> ''*''
                     | Some fs \<Rightarrow> if fs \<noteq> [] then join '', '' fs else ''*'') @ '' FROM '' @ table, [])) of
             Inl ex \<Rightarrow> Some (Inl ex, s1)
           | Inr (query, params) \<Rightarrow>
               (case cursor_execute eng query (Some params) s1 of
                  None \<Rightarrow> None
                | Some (Inl ex, s2) \<Rightarrow> Some (Inl ex, s2)
                | Some (Inr r, s2) \<Rightarrow> fetch_rows_and_names eng s2)) = Some (r, s2)
          \<and> trace s2 = trace s1 @ evs
          \<and> filter is_connection_event evs = [] \<and> world s2 = replay eng evs (world s1)"
    unfolding stmt_def .
qed

text \<open>The \<open>with\<close> statement on a connection that opens, commits and closes.\<close>

lemma with_db_cursor_run:
  assumes "sql_connect eng db_path (world s) = (Inr u, w1)"
    and "body (s\<lparr>world := w1, trace := trace s @ [Connect db_path]\<rparr>) = Some (r, s2)"
    and "sql_commit eng (world s2) = (Inr u', w3)"
    and "sql_close eng w3 = (Inr u'', w4)"
  shows "with_db_cursor eng db_path body s
         = Some (r, s2\<lparr>world := w4, trace := trace s2 @ [Commit, Close]\<rparr>)"
  using assms
  by (simp add: with_db_cursor_def db_cursor_enter_def db_cursor_exit_def emit_def)


lemma with_db_cursor_extends:
  assumes "sql_connect eng db_path (world s) = (Inr u, w1)"
    and "body (s\<lparr>world := w1, trace := trace s @ [Connect db_path]\<rparr>) = Some (r, s2)"
  shows "\<exists>r' s3 ending. with_db_cursor eng db_path body s = Some (r', s3)
            \<and> trace s3 = trace s2 @ ending \<and> (\<forall>v. r' = Inr v \<longrightarrow> r = Inr v)"
proof -
  obtain rm w3 where m: "sql_commit eng (world s2) = (rm, w3)"
    by (cases "sql_commit eng (world s2)")
  obtain rl w4 where l: "sql_close eng w3 = (rl, w4)"
    by (cases "sql_close eng w3")
  show ?thesis
    using assms m l
    by (cases rm; cases rl)
       (simp_all add: with_db_cursor_def db_cursor_enter_def db_cursor_exit_def emit_def)
qed


text \<open>The dicts built from the fetched rows.\<close>

lemma build_row_data_Inr:
  "build_row_data (enumerate n names) row d = Inr d' \<Longrightarrow>
   length names \<le> length row - n
   \<and> map_of d' = (map_of d)(names [\<mapsto>] drop n row)
   \<and> (distinct (map fst d) \<longrightarrow> distinct (map fst d'))"
proof (induction names arbitrary: n d)
  case Nil
  then show ?case by simp
next
  case (Cons c cs)
  from Cons.prems have lt: "n < length row"
    and rest: "build_row_data (enumerate (Suc n) cs) row (AList.update c (row ! n) d) = Inr d'"
    by (simp_all split: if_splits)
  from Cons.IH [OF rest] have ih: "length cs \<le> length row - Suc n"
    "map_of d' = (map_of (AList.update c (row ! n) d))(cs [\<mapsto>] drop (Suc n) row)"
    "distinct (map fst (AList.update c (row ! n) d)) \<longrightarrow> distinct (map fst d')"
    by simp_all
  have "drop n row = row ! n # drop (Suc n) row"
    using lt by (simp add: Cons_nth_drop_Suc)
  then show ?case
    using ih lt by (simp add: update_conv' distinct_update)
qed

lemma build_row_data_returns:
  "length names \<le> length row - n \<Longrightarrow> \<exists>d'. build_row_data (enumerate n names) row d = Inr d'"
proof (induction names arbitrary: n d)
  case Nil
  then show ?case by simp
next
  case (Cons c cs)
  from Cons.prems have "n < length row" "length cs \<le> length row - Suc n" by simp_all
  with Cons.IH [of "Suc n" "AList.update c (row ! n) d"] show ?case by simp
qed

lemma build_results_Inr:
  "build_results rows names acc = Inr results \<Longrightarrow>
   \<exists>ds. results = acc @ ds \<and> list_all2 (row_as_dict names) rows ds"
proof (induction rows arbitrary: acc)
  case Nil
  then show ?case by simp
next
  case (Cons row rows)
  from Cons.prems obtain d where d: "build_row_data (enumerate 0 names) row [] = Inr d"
    and rest: "build_results rows names (acc @ [d]) = Inr results"
    by (auto split: sum.splits)
  from build_row_data_Inr [OF d] have "row_as_dict names row d"
    by (simp add: row_as_dict_def)
  moreover from Cons.IH [OF rest] obtain ds where "results = (acc @ [d]) @ ds"
    "list_all2 (row_as_dict names) rows ds" by blast
  ultimately show ?case by auto
qed

lemma build_results_returns:
  "\<forall>row\<in>set rows. length names \<le> length row \<Longrightarrow>
   \<exists>results. build_results rows names acc = Inr results"
proof (induction rows arbitrary: acc)
  case Nil
  then show ?case by simp
next
  case (Cons row rows)
  from Cons.prems build_row_data_returns [of names row 0 "[]"]
  obtain d where "build_row_data (enumerate 0 names) row [] = Inr d" by auto
  with Cons.IH [of "acc @ [d]"] Cons.prems show ?case by simp
qed

lemma build_results_dicts:
  assumes "\<forall>row\<in>set rows. length names \<le> length row"
  obtains results where "build_results rows names [] = Inr results"
    and "list_all2 (row_as_dict names) rows results"
proof -
  from build_results_returns [OF assms, of "[]"]
  obtain results where r: "build_results rows names [] = Inr results" by blast
  from build_results_Inr [OF r] have "list_all2 (row_as_dict names) rows results" by simp
  with r that show thesis by blast
qed


text \<open>
  What \<open>db_update\<close> hands to the engine on a connection that opens, commits and
  closes, when the first execution succeeds: the one statement
  \<open>UPDATE table SET c1=?, \<dots>, cn=? WHERE col=?\<close>, bound to the new values in the order
  of their columns, followed by the condition value. Which rows and which columns that
  statement changes is the engine's reading of it (the comparison under the column's
  affinity, the collation of names, the triggers of the schema); nothing in this module
  fixes it.
\<close>

lemma db_update_statement:
  assumes "sql_connect eng db_path (world s) = (Inr (), w1)"
    and "sql_execute eng
           (''UPDATE '' @ table @ '' SET '' @ join ''=?, '' (map fst updated_fields) @ ''=?''
              @ '' WHERE '' @ col @ ''=?'')
           (map snd updated_fields @ [v]) w1 = (Inr r, w2)"
    and "sql_commit eng w2 = (Inr (), w3)"
    and "sql_close eng w3 = (Inr (), w4)"
  shows "db_update eng db_path table updated_fields [Text col, v] s =
         Some (Inr (),
               s\<lparr>world := w4,
                  trace := trace s
                    @ [Connect db_path,
                       Execute (''UPDATE '' @ table @ '' SET ''
                                  @ join ''=?, '' (map fst updated_fields) @ ''=?''
                                  @ '' WHERE '' @ col @ ''=?'')
                               (map snd updated_fields @ [v]),
                       Commit, Close]\<rparr>)"
proof -
  let ?q = "''UPDATE '' @ table @ '' SET '' @ join ''=?, '' (map fst updated_fields) @ ''=?''
              @ '' WHERE '' @ col @ ''=?''"
  let ?vs = "map snd updated_fields @ [v]"
  let ?s1 = "s\<lparr>world := w1, trace := trace s @ [Connect db_path]\<rparr>"
  let ?s2 = "?s1\<lparr>world := w2, trace := trace ?s1 @ [Execute ?q ?vs]\<rparr>"
  let ?body = "\<lambda>s1. case cursor_execute eng ?q (Some ?vs) s1 of
                       None \<Rightarrow> None
                     | Some (Inl ex, s2) \<Rightarrow> Some (Inl ex, s2)
                     | Some (Inr r, s2) \<Rightarrow> Some (Inr (), s2)"
  have "cursor_execute eng ?q (Some ?vs) ?s1 = Some (Inr r, ?s2)"
    using cursor_execute_single_attempt [of eng ?q "Some ?vs" ?s1] assms(2)
    by (simp add: bound_params_def)
  then have b: "?body ?s1 = Some (Inr (), ?s2)" by simp
  have "db_update eng db_path table updated_fields [Text col, v] s
        = with_db_cursor eng db_path ?body s"
    by (simp add: db_update_def Let_def decode_utf8_values_id)
  also have "\<dots> = Some (Inr (), ?s2\<lparr>world := w4, trace := trace ?s2 @ [Commit, Close]\<rparr>)"
    using with_db_cursor_run [of eng db_path s "()" w1 ?body "Inr ()" ?s2 "()" w3 "()" w4]
      assms(1,3,4) b
    by simp
  finally show ?thesis by simp
qed

text \<open>Unfolding a call on a concrete engine.\<close>

lemmas run_simps = cursor_execute_def cursor_execute_loop.simps cursor_dot_execute_def
        scripted_engine_def locked_def answered_def initial_def emit_def DB_RETRIES_def
        with_db_cursor_def db_cursor_enter_def db_cursor_exit_def Let_def
        counting_engine_def no_calls_def

section \<open>The helpers: the claims\<close>

text \<open>
  C5 as written has every helper commit and then close its connection before it
  returns. \<open>__exit__\<close> is \<open>commit()\<close> followed by \<open>close()\<close> with nothing around
  them, so on a database that is locked at the commit the update below, whose one
  execution succeeded, ends with the commit's exception and never closes: its events are
  the connect, the execution and the commit.
\<close>

theorem commit_failure_skips_close:
  "attempt (counting_engine answered (Inl (OperationalError ''database is locked'')))
      ''UPDATE games SET name=? WHERE id=?'' [Text ''Quake'', Integer 1] 0
      \<lparr>connects = 1, executions = 0, commits = 0, closes = 0\<rparr> = Inr 0
   \<and> db_update (counting_engine answered (Inl (OperationalError ''database is locked'')))
        ''pga.db'' ''games'' [(''name'', Text ''Quake'')] [Text ''id'', Integer 1] no_calls
      = Some (Inl (OperationalError ''database is locked''),
              \<lparr>world = \<lparr>connects = 1, executions = 1, commits = 1, closes = 0\<rparr>,
               trace = [Connect ''pga.db'',
                        Execute ''UPDATE games SET name=? WHERE id=?'' [Text ''Quake'', Integer 1],
                        Commit]\<rparr>)
   \<and> count_events is_Close
        [Connect ''pga.db'',
         Execute ''UPDATE games SET name=? WHERE id=?'' [Text ''Quake'', Integer 1],
         Commit] = 0"
  by (simp add: db_update_def decode_utf8_values_id run_simps attempt_def count_events_def)


text \<open>
  C5, amended. Each of insert, update, delete, select and raw query returns, and makes
  its own \<open>connect\<close> as the first event of the call. When the connect raises, that is
  all the call does. When the connection opens, the body follows, with no event of the
  connection in it, and then the \<open>commit\<close>, whether the query execution succeeded or
  raised; when the commit returns, the \<open>close\<close> follows as the last event of the call,
  and when the commit raises, the call ends there with the commit's exception. The world
  the call leaves is the one these calls on the binding produce, in this order. For
  update the condition \<open>row\<close> is a tuple of at least two items, since \<open>row[0]\<close> and
  \<open>row[1]\<close> are read before the connection is opened.
\<close>

theorem helpers_scope_their_connection:
  "scoped_connection eng db_path s (db_insert eng db_path table fields' s)
   \<and> (2 \<le> length row \<longrightarrow>
        scoped_connection eng db_path s (db_update eng db_path table updated_fields row s))
   \<and> scoped_connection eng db_path s (db_delete eng db_path table field val s)
   \<and> scoped_connection eng db_path s (db_select eng db_path table columns condition s)
   \<and> scoped_connection eng db_path s (db_query eng db_path query params s)"
  by (simp add: db_insert_scoped db_update_scoped db_delete_scoped db_select_scoped
        db_query_scoped)

theorem helpers_scope_their_connection_witness:
  "db_update (counting_engine answered (Inr ())) ''pga.db'' ''games''
       [(''name'', Text ''Quake'')] [Text ''id'', Integer 1] no_calls
     = Some (Inr (),
             \<lparr>world = \<lparr>connects = 1, executions = 1, commits = 1, closes = 1\<rparr>,
              trace = [Connect ''pga.db'',
                       Execute ''UPDATE games SET name=? WHERE id=?'' [Text ''Quake'', Integer 1],
                       Commit, Close]\<rparr>)
   \<and> map_option fst (db_update (counting_engine locked (Inr ())) ''pga.db'' ''games''
       [(''name'', Text ''Quake'')] [Text ''id'', Integer 1] no_calls)
      = Some (Inl (OperationalError ''database is locked''))
   \<and> map_option (world \<circ> snd) (db_update (counting_engine locked (Inr ())) ''pga.db'' ''games''
       [(''name'', Text ''Quake'')] [Text ''id'', Integer 1] no_calls)
      = Some \<lparr>connects = 1, executions = 5, commits = 1, closes = 1\<rparr>
   \<and> 2 \<le> length [Text ''id'', Integer 1]
   \<and> scoped_connection (counting_engine answered (Inr ())) ''pga.db'' no_calls
        (db_update (counting_engine answered (Inr ())) ''pga.db'' ''games''
           [(''name'', Text ''Quake'')] [Text ''id'', Integer 1] no_calls)
   \<and> scoped_connection (counting_engine locked (Inr ())) ''pga.db'' no_calls
        (db_update (counting_engine locked (Inr ())) ''pga.db'' ''games''
           [(''name'', Text ''Quake'')] [Text ''id'', Integer 1] no_calls)
   \<and> scoped_connection (counting_engine answered (Inl (OperationalError ''database is locked'')))
        ''pga.db'' no_calls
        (db_update (counting_engine answered (Inl (OperationalError ''database is locked'')))
           ''pga.db'' ''games'' [(''name'', Text ''Quake'')] [Text ''id'', Integer 1] no_calls)"
proof -
  have "db_update (counting_engine answered (Inr ())) ''pga.db'' ''games''
       [(''name'', Text ''Quake'')] [Text ''id'', Integer 1] no_calls
     = Some (Inr (),
             \<lparr>world = \<lparr>connects = 1, executions = 1, commits = 1, closes = 1\<rparr>,
              trace = [Connect ''pga.db'',
                       Execute ''UPDATE games SET name=? WHERE id=?'' [Text ''Quake'', Integer 1],
                       Commit, Close]\<rparr>)"
    by (simp add: db_update_def decode_utf8_values_id run_simps)
  moreover have "map_option fst (db_update (counting_engine locked (Inr ())) ''pga.db'' ''games''
       [(''name'', Text ''Quake'')] [Text ''id'', Integer 1] no_calls)
      = Some (Inl (OperationalError ''database is locked''))"
    by (simp add: db_update_def decode_utf8_values_id run_simps)
  moreover have "map_option (world \<circ> snd) (db_update (counting_engine locked (Inr ())) ''pga.db'' ''games''
       [(''name'', Text ''Quake'')] [Text ''id'', Integer 1] no_calls)
      = Some \<lparr>connects = 1, executions = 5, commits = 1, closes = 1\<rparr>"
    by (simp add: db_update_def decode_utf8_values_id run_simps)
  ultimately show ?thesis
    using helpers_scope_their_connection
            [of "counting_engine answered (Inr ())" "''pga.db''" no_calls "''games''" "[]"
                "[Text ''id'', Integer 1]" "[(''name'', Text ''Quake'')]"]
          helpers_scope_their_connection
            [of "counting_engine locked (Inr ())" "''pga.db''" no_calls "''games''" "[]"
                "[Text ''id'', Integer 1]" "[(''name'', Text ''Quake'')]"]
          helpers_scope_their_connection
            [of "counting_engine answered (Inl (OperationalError ''database is locked''))"
                "''pga.db''" no_calls "''games''" "[]"
                "[Text ''id'', Integer 1]" "[(''name'', Text ''Quake'')]"]
    by simp
qed




text \<open>
  C9. \<open>add_field\<close> calls \<open>cursor.execute\<close> itself: any exception of the
  \<open>ALTER TABLE\<close> statement, an \<open>OperationalError\<close> included, reaches the caller after
  that single execution; the events of the call are the connect, the one execution, the
  commit and the close, with no log entry and no sleep. The connection is one that
  opens, commits and closes.
\<close>

theorem add_field_no_retry:
  assumes "field ''name'' = Some name" and "field ''type'' = Some ty"
    and "sql_connect eng db_path (world s) = (Inr (), w1)"
    and "sql_execute eng (''ALTER TABLE '' @ tablename @ '' ADD COLUMN '' @ name @ '' '' @ ty) []
           w1 = (Inl ex, w2)"
    and "sql_commit eng w2 = (Inr (), w3)"
    and "sql_close eng w3 = (Inr (), w4)"
  shows "add_field eng db_path tablename field s =
         Some (Inl ex,
               s\<lparr>world := w4,
                  trace := trace s
                    @ [Connect db_path,
                       Execute (''ALTER TABLE '' @ tablename @ '' ADD COLUMN '' @ name @ '' '' @ ty) [],
                       Commit, Close]\<rparr>)"
  using assms
  by (simp add: add_field_def with_db_cursor_def db_cursor_enter_def db_cursor_exit_def
        cursor_dot_execute_def emit_def Let_def)

theorem add_field_no_retry_witness:
  "year_field ''name'' = Some ''year'' \<and> year_field ''type'' = Some ''INTEGER''
   \<and> sql_connect (counting_engine locked (Inr ())) ''pga.db'' (world no_calls)
       = (Inr (), \<lparr>connects = 1, executions = 0, commits = 0, closes = 0\<rparr>)
   \<and> sql_execute (counting_engine locked (Inr ()))
        (''ALTER TABLE '' @ ''games'' @ '' ADD COLUMN '' @ ''year'' @ '' '' @ ''INTEGER'') []
        \<lparr>connects = 1, executions = 0, commits = 0, closes = 0\<rparr>
       = (Inl (OperationalError ''database is locked''),
          \<lparr>connects = 1, executions = 1, commits = 0, closes = 0\<rparr>)
   \<and> sql_commit (counting_engine locked (Inr ()))
        \<lparr>connects = 1, executions = 1, commits = 0, closes = 0\<rparr>
       = (Inr (), \<lparr>connects = 1, executions = 1, commits = 1, closes = 0\<rparr>)
   \<and> sql_close (counting_engine locked (Inr ()))
        \<lparr>connects = 1, executions = 1, commits = 1, closes = 0\<rparr>
       = (Inr (), \<lparr>connects = 1, executions = 1, commits = 1, closes = 1\<rparr>)
   \<and> add_field (counting_engine locked (Inr ())) ''pga.db'' ''games'' year_field no_calls =
         Some (Inl (OperationalError ''database is locked''),
               \<lparr>world = \<lparr>connects = 1, executions = 1, commits = 1, closes = 1\<rparr>,
                trace = [Connect ''pga.db'',
                         Execute ''ALTER TABLE games ADD COLUMN year INTEGER'' [],
                         Commit, Close]\<rparr>)"
proof -
  have h1: "year_field ''name'' = Some ''year''" and h2: "year_field ''type'' = Some ''INTEGER''"
    by (simp_all add: year_field_def)
  have h3: "sql_connect (counting_engine locked (Inr ())) ''pga.db'' (world no_calls)
       = (Inr (), \<lparr>connects = 1, executions = 0, commits = 0, closes = 0\<rparr>)"
    by (simp add: counting_engine_def no_calls_def)
  have h4: "sql_execute (counting_engine locked (Inr ()))
        (''ALTER TABLE '' @ ''games'' @ '' ADD COLUMN '' @ ''year'' @ '' '' @ ''INTEGER'') []
        \<lparr>connects = 1, executions = 0, commits = 0, closes = 0\<rparr>
       = (Inl (OperationalError ''database is locked''),
          \<lparr>connects = 1, executions = 1, commits = 0, closes = 0\<rparr>)"
    by (simp add: counting_engine_def locked_def)
  have h5: "sql_commit (counting_engine locked (Inr ()))
        \<lparr>connects = 1, executions = 1, commits = 0, closes = 0\<rparr>
       = (Inr (), \<lparr>connects = 1, executions = 1, commits = 1, closes = 0\<rparr>)"
    and h6: "sql_close (counting_engine locked (Inr ()))
        \<lparr>connects = 1, executions = 1, commits = 1, closes = 0\<rparr>
       = (Inr (), \<lparr>connects = 1, executions = 1, commits = 1, closes = 1\<rparr>)"
    by (simp_all add: counting_engine_def)
  show ?thesis
    using h1 h2 h3 h4 h5 h6 add_field_no_retry [OF h1 h2 h3 h4 h5 h6]
    by (simp add: no_calls_def)
qed

text \<open>
  C10. In \<open>db_select\<close> an empty \<open>fields\<close> sequence gives what \<open>fields=None\<close> gives, and
  an empty condition gives what no condition gives, in every state and for every engine;
  with both absent the statement executed, once the connection is open, is
  \<open>SELECT * FROM table\<close> with no parameters.
\<close>

theorem db_select_falsy_arguments:
  "db_select eng db_path table (Some []) condition s = db_select eng db_path table None condition s
   \<and> db_select eng db_path table columns (Some []) s = db_select eng db_path table columns None s
   \<and> (\<exists>r s'. db_select eng db_path table (Some []) (Some []) s = Some (r, s')
          \<and> (case fst (sql_connect eng db_path (world s)) of
                Inl ex \<Rightarrow> r = Inl ex \<and> drop (length (trace s)) (trace s') = [Connect db_path]
              | Inr u \<Rightarrow> take 2 (drop (length (trace s)) (trace s'))
                          = [Connect db_path, Execute (''SELECT * FROM '' @ table) []]))"
proof -
  let ?q = "''SELECT * FROM '' @ table"
  let ?body = "\<lambda>s1. case cursor_execute eng ?q (Some []) s1 of
                       None \<Rightarrow> None
                     | Some (Inl ex, s2) \<Rightarrow> Some (Inl ex, s2)
                     | Some (Inr r, s2) \<Rightarrow> fetch_rows_and_names eng s2"
  have sel: "db_select eng db_path table (Some []) (Some []) s =
        (case with_db_cursor eng db_path ?body s of
           None \<Rightarrow> None
         | Some (Inl ex, s3) \<Rightarrow> Some (Inl ex, s3)
         | Some (Inr (rows, column_names), s3) \<Rightarrow>
             (case build_results rows column_names [] of
                Inl ex \<Rightarrow> Some (Inl ex, s3)
              | Inr results \<Rightarrow> Some (Inr results, s3)))"
    by (simp add: db_select_def)
  obtain rc w1 where c: "sql_connect eng db_path (world s) = (rc, w1)"
    by (cases "sql_connect eng db_path (world s)")
  have "\<exists>r s'. db_select eng db_path table (Some []) (Some []) s = Some (r, s')
          \<and> (case fst (sql_connect eng db_path (world s)) of
                Inl ex \<Rightarrow> r = Inl ex \<and> drop (length (trace s)) (trace s') = [Connect db_path]
              | Inr u \<Rightarrow> take 2 (drop (length (trace s)) (trace s'))
                          = [Connect db_path, Execute (''SELECT * FROM '' @ table) []])"
  proof (cases rc)
    case (Inl ex)
    then have "with_db_cursor eng db_path ?body s
               = Some (Inl ex, s\<lparr>world := w1, trace := trace s @ [Connect db_path]\<rparr>)"
      by (simp add: with_db_cursor_def db_cursor_enter_def c emit_def)
    then show ?thesis
      unfolding sel by (simp add: c Inl)
  next
    case (Inr u)
    let ?s1 = "s\<lparr>world := w1, trace := trace s @ [Connect db_path]\<rparr>"
    obtain r s2 evs where ce: "cursor_execute eng ?q (Some []) ?s1 = Some (r, s2)"
      and tr: "trace s2 = trace ?s1 @ Execute ?q (bound_params (Some [])) # evs"
      using cursor_execute_returns [of eng ?q "Some []" ?s1] by auto
    have "\<exists>r'. ?body ?s1 = Some (r', s2)"
      unfolding ce
      by (cases r) (simp_all add: fetch_rows_and_names_def Let_def split: option.splits)
    then obtain r' where b: "?body ?s1 = Some (r', s2)" by blast
    from with_db_cursor_extends [of eng db_path s u w1 ?body r' s2] c Inr b
    obtain r'' s3 ending where w: "with_db_cursor eng db_path ?body s = Some (r'', s3)"
      and t3: "trace s3 = trace s2 @ ending"
      by auto
    have "\<exists>r3. db_select eng db_path table (Some []) (Some []) s = Some (r3, s3)"
      unfolding sel w by (simp split: sum.splits prod.splits)
    then show ?thesis
      by (auto simp: c Inr t3 tr bound_params_def)
  qed
  then show ?thesis
    by (simp add: db_select_def)
qed

theorem db_select_falsy_arguments_witness:
  "db_select (scripted_engine answered [[Integer 1, Text ''Quake'']] (Some [''id'', ''name'']))
      ''pga.db'' ''games'' (Some []) (Some [Text ''id'', Integer 1]) initial
   = db_select (scripted_engine answered [[Integer 1, Text ''Quake'']] (Some [''id'', ''name'']))
      ''pga.db'' ''games'' None (Some [Text ''id'', Integer 1]) initial
   \<and> db_select (scripted_engine answered [[Integer 1, Text ''Quake'']] (Some [''id'', ''name'']))
      ''pga.db'' ''games'' (Some [''name'']) (Some []) initial
   = db_select (scripted_engine answered [[Integer 1, Text ''Quake'']] (Some [''id'', ''name'']))
      ''pga.db'' ''games'' (Some [''name'']) None initial
   \<and> (\<exists>r s'. db_select
                 (scripted_engine answered [[Integer 1, Text ''Quake'']] (Some [''id'', ''name'']))
                 ''pga.db'' ''games'' (Some []) (Some []) initial = Some (r, s')
          \<and> take 2 (drop (length (trace initial)) (trace s'))
              = [Connect ''pga.db'', Execute (''SELECT * FROM '' @ ''games'') []])"
  using db_select_falsy_arguments
          [of "scripted_engine answered [[Integer 1, Text ''Quake'']] (Some [''id'', ''name''])"
              "''pga.db''" "''games''" "Some [Text ''id'', Integer 1]" initial "Some [''name'']"]
  by (simp add: scripted_engine_def)

text \<open>
  C7. \<open>db_select\<close> and \<open>db_query\<close> return the fetched rows as a list of dicts, built
  in full before the return. On a connection that opens, commits and closes, when the
  retrying executor succeeds on the statement, the cursor has a description and no
  fetched row is shorter than it, both return a list that holds one dict per row of
  \<open>cursor.fetchall()\<close>, in the order of the rows, each dict mapping the column names of
  the description to the cells of its row. For \<open>db_select\<close> the statement is
  \<open>SELECT cols FROM table\<close>, with \<open>where c=?\<close> bound to \<open>v\<close> when the condition is the
  pair \<open>(c, v)\<close>; \<open>cols\<close> is \<open>*\<close> or the given column names.
\<close>

theorem select_and_query_rows:
  assumes "sql_connect eng db_path (world s) = (Inr (), w1)"
    and "cursor_execute eng query (Some params)
           (s\<lparr>world := w1, trace := trace s @ [Connect db_path]\<rparr>) = Some (Inr r, s2)"
    and "sql_description eng (world s2) = Some names"
    and "\<forall>row\<in>set (sql_fetchall eng (world s2)). length names \<le> length row"
    and "sql_commit eng (world s2) = (Inr (), w3)"
    and "sql_close eng w3 = (Inr (), w4)"
    and "cols = (case columns of
                   None \<Rightarrow> ''*''
                 | Some fs \<Rightarrow> if fs \<noteq> [] then join '', '' fs else ''*'')"
  shows "\<exists>results.
           list_all2 (row_as_dict names) (sql_fetchall eng (world s2)) results
           \<and> db_query eng db_path query (Some params) s
               = Some (Inr results, s2\<lparr>world := w4, trace := trace s2 @ [Commit, Close]\<rparr>)
           \<and> ((condition = None \<or> condition = Some [])
                \<and> query = ''SELECT '' @ cols @ '' FROM '' @ table \<and> params = []
               \<longrightarrow> db_select eng db_path table columns condition s
                     = Some (Inr results, s2\<lparr>world := w4, trace := trace s2 @ [Commit, Close]\<rparr>))
           \<and> (\<forall>c v. condition = Some [c, v]
                      \<and> query = ''SELECT '' @ cols @ '' FROM '' @ table
                                  @ '' where '' @ py_str c @ ''=?''
                      \<and> params = [v]
               \<longrightarrow> db_select eng db_path table columns condition s
                     = Some (Inr results, s2\<lparr>world := w4, trace := trace s2 @ [Commit, Close]\<rparr>))"
proof -
  let ?rows = "sql_fetchall eng (world s2)"
  let ?s1 = "s\<lparr>world := w1, trace := trace s @ [Connect db_path]\<rparr>"
  let ?s3 = "s2\<lparr>world := w4, trace := trace s2 @ [Commit, Close]\<rparr>"
  let ?body = "\<lambda>q ps s1. case cursor_execute eng q (Some ps) s1 of
                          None \<Rightarrow> None
                        | Some (Inl ex, s2) \<Rightarrow> Some (Inl ex, s2)
                        | Some (Inr r, s2) \<Rightarrow> fetch_rows_and_names eng s2"
  from assms(4) obtain results where br: "build_results ?rows names [] = Inr results"
    and dicts: "list_all2 (row_as_dict names) ?rows results"
    by (rule build_results_dicts)
  have b: "?body query params ?s1 = Some (Inr (?rows, names), s2)"
    by (simp add: assms(2) fetch_rows_and_names_def assms(3))
  have w: "with_db_cursor eng db_path (?body query params) s = Some (Inr (?rows, names), ?s3)"
    using with_db_cursor_run
            [of eng db_path s "()" w1 "?body query params" "Inr (?rows, names)" s2 "()" w3 "()" w4]
          assms(1,5,6) b
    by simp
  have q: "db_query eng db_path query (Some params) s = Some (Inr results, ?s3)"
    unfolding db_query_def w by (simp add: br)
  have sel: "db_select eng db_path table columns condition s = Some (Inr results, ?s3)"
    if "db_select eng db_path table columns condition s =
        (case with_db_cursor eng db_path (?body query params) s of
           None \<Rightarrow> None
         | Some (Inl ex, s3) \<Rightarrow> Some (Inl ex, s3)
         | Some (Inr (rows, column_names), s3) \<Rightarrow>
             (case build_results rows column_names [] of
                Inl ex \<Rightarrow> Some (Inl ex, s3)
              | Inr results \<Rightarrow> Some (Inr results, s3)))"
    unfolding that w by (simp add: br)
  have s0: "db_select eng db_path table columns condition s = Some (Inr results, ?s3)"
    if "condition = None \<or> condition = Some []" "query = ''SELECT '' @ cols @ '' FROM '' @ table"
      "params = []"
    using that(1) by (intro sel) (auto simp: db_select_def that(2,3) assms(7))
  have s2: "db_select eng db_path table columns condition s = Some (Inr results, ?s3)"
    if "condition = Some [c, v]"
      "query = ''SELECT '' @ cols @ '' FROM '' @ table @ '' where '' @ py_str c @ ''=?''"
      "params = [v]" for c v
    by (intro sel) (simp add: db_select_def that assms(7))
  from dicts q s0 s2 show ?thesis by blast
qed

theorem select_and_query_rows_witness:
  "sql_connect (scripted_engine answered two_games (Some [''id'', ''name''])) ''pga.db''
       (world initial) = (Inr (), 0)
   \<and> cursor_execute (scripted_engine answered two_games (Some [''id'', ''name'']))
        ''SELECT * FROM games where id=?'' (Some [Integer 1])
        (initial\<lparr>world := 0, trace := trace initial @ [Connect ''pga.db'']\<rparr>)
       = Some (Inr 0, \<lparr>world = 1,
                        trace = [Connect ''pga.db'',
                                 Execute ''SELECT * FROM games where id=?'' [Integer 1]]\<rparr>)
   \<and> list_all (\<lambda>row. length [''id'', ''name''] \<le> length row) two_games
   \<and> db_query (scripted_engine answered two_games (Some [''id'', ''name''])) ''pga.db''
        ''SELECT * FROM games where id=?'' (Some [Integer 1]) initial
       = Some (Inr [[(''id'', Integer 1), (''name'', Text ''Quake'')],
                    [(''id'', Integer 2), (''name'', Text ''Doom'')]],
               \<lparr>world = 1,
                trace = [Connect ''pga.db'',
                         Execute ''SELECT * FROM games where id=?'' [Integer 1],
                         Commit, Close]\<rparr>)
   \<and> db_select (scripted_engine answered two_games (Some [''id'', ''name''])) ''pga.db'' ''games''
        None (Some [Text ''id'', Integer 1]) initial
       = Some (Inr [[(''id'', Integer 1), (''name'', Text ''Quake'')],
                    [(''id'', Integer 2), (''name'', Text ''Doom'')]],
               \<lparr>world = 1,
                trace = [Connect ''pga.db'',
                         Execute ''SELECT * FROM games where id=?'' [Integer 1],
                         Commit, Close]\<rparr>)
   \<and> list_all2 (row_as_dict [''id'', ''name'']) two_games
        [[(''id'', Integer 1), (''name'', Text ''Quake'')],
         [(''id'', Integer 2), (''name'', Text ''Doom'')]]"
proof -
  let ?E = "scripted_engine answered two_games (Some [''id'', ''name''])"
  let ?s2 = "\<lparr>world = 1::nat,
              trace = [Connect ''pga.db'',
                       Execute ''SELECT * FROM games where id=?'' [Integer 1]]\<rparr>"
  have h1: "sql_connect ?E ''pga.db'' (world initial) = (Inr (), 0)"
    by (simp add: scripted_engine_def initial_def)
  have h2: "cursor_execute ?E ''SELECT * FROM games where id=?'' (Some [Integer 1])
        (initial\<lparr>world := 0, trace := trace initial @ [Connect ''pga.db'']\<rparr>)
       = Some (Inr 0, ?s2)"
    by (simp add: run_simps)
  have h3: "sql_description ?E (world ?s2) = Some [''id'', ''name'']"
    by (simp add: scripted_engine_def)
  have h4: "\<forall>row\<in>set (sql_fetchall ?E (world ?s2)). length [''id'', ''name''] \<le> length row"
    by (simp add: scripted_engine_def two_games_def)
  have h5: "sql_commit ?E (world ?s2) = (Inr (), 1)" and h6: "sql_close ?E 1 = (Inr (), 1)"
    by (simp_all add: scripted_engine_def)
  have q: "db_query ?E ''pga.db'' ''SELECT * FROM games where id=?'' (Some [Integer 1]) initial
       = Some (Inr [[(''id'', Integer 1), (''name'', Text ''Quake'')],
                    [(''id'', Integer 2), (''name'', Text ''Doom'')]],
               \<lparr>world = 1,
                trace = [Connect ''pga.db'',
                         Execute ''SELECT * FROM games where id=?'' [Integer 1],
                         Commit, Close]\<rparr>)"
    by (simp add: db_query_def run_simps fetch_rows_and_names_def two_games_def enumerate_eq_zip)
  from select_and_query_rows
         [where columns = None and condition = "Some [Text ''id'', Integer 1]"
            and table = "''games''", OF h1 h2 h3 h4 h5 h6 refl]
  obtain results where r1: "list_all2 (row_as_dict [''id'', ''name''])
                              (sql_fetchall ?E (world ?s2)) results"
    and r2: "db_query ?E ''pga.db'' ''SELECT * FROM games where id=?'' (Some [Integer 1]) initial
             = Some (Inr results, ?s2\<lparr>world := 1, trace := trace ?s2 @ [Commit, Close]\<rparr>)"
    and r3: "db_select ?E ''pga.db'' ''games'' None (Some [Text ''id'', Integer 1]) initial
             = Some (Inr results, ?s2\<lparr>world := 1, trace := trace ?s2 @ [Commit, Close]\<rparr>)"
    by auto
  from q r2 have res: "results = [[(''id'', Integer 1), (''name'', Text ''Quake'')],
                    [(''id'', Integer 2), (''name'', Text ''Doom'')]]" by simp
  from r1 have "list_all2 (row_as_dict [''id'', ''name'']) two_games results"
    by (simp add: scripted_engine_def)
  with h1 h2 q r3 res show ?thesis
    by (simp add: two_games_def)
qed

end
